theory Spec2Isabelle
  imports Main "HOL-Library.Word"
begin

unbundle bit_operations_syntax

section \<open>The menu data model of gui.c\<close>

type_synonym u32 = "32 word"
type_synonym u64 = "64 word"

datatype MenuEntryKind = KIND_OPTION | KIND_SUBMENU | KIND_DISPLAY | KIND_CUSTOM

datatype MenuDataType = TYPE_STRING | TYPE_INT32 | TYPE_UINT32 | TYPE_INT64 | TYPE_UINT64

text \<open>
  The menus are static objects that point at each other (an entry at its submenu, a menu
  at its parent). A pointer to a menu is modelled by the name of the menu it points to.
\<close>

datatype menu_id =
    MainMenu | DebugMenu | NativeCodeMenu | MetadataMenu | ExecutionMenu | ReuseMenu
  | ROMInfoMenu | DisplayMenu | ButtonMappingMenu | HotkeyMenu

text \<open>
  The \<open>uint32_t\<close> globals that option entries point at. They are declared outside gui.c;
  \<open>KeypadRemapping\<close> and \<open>Hotkeys\<close> are arrays, addressed by index.
\<close>

datatype address =
    Addr_BootFromBIOS | Addr_ShowFPS | Addr_ScaleMode | Addr_UserFrameskip
  | Addr_FastForwardTarget | Addr_AnalogSensitivity
  | Addr_KeypadRemapping nat | Addr_Hotkeys nat

type_synonym memory = "address \<Rightarrow> u32"

text \<open>
  \<open>void* Target\<close>: a \<open>struct Menu*\<close> for submenus, a \<open>uint32_t*\<close> for options, a pointer to
  displayed data (named by the C expression) for display entries, unset otherwise.
\<close>

datatype target = NoTarget | MenuTarget menu_id | GlobalTarget address | DataTarget string

text \<open>The functions of gui.c that the tables store in function-pointer members.\<close>

datatype modify_function =
    Fn_ActionExit | Fn_ActionReturn | Fn_ActionReset
  | Fn_ActionSetMapping | Fn_ActionSetOrClearMapping | Fn_ActionSetOrClearHotkey

datatype entry_function = Fn_NullLeftFunction | Fn_NullRightFunction

datatype display_function = Fn_DisplayButtonMappingValue | Fn_DisplayHotkeyValue

datatype persistence_function =
    Fn_LoadMappingFunction | Fn_SaveMappingFunction
  | Fn_LoadHotkeyFunction | Fn_SaveHotkeyFunction

text \<open>
  \<open>struct MenuEntry\<close>. A member that the initialiser leaves out is a null pointer
  (\<open>None\<close>) or zero. \<open>Choices\<close> holds the pairs (Pretty, Persistent).
\<close>

record MenuEntry =
  Kind :: MenuEntryKind
  Name :: string
  PersistentName :: "string option"
  DisplayType :: MenuDataType
  Position :: u32
  Target :: target
  ChoiceCount :: u32
  ButtonEnterFunction :: "modify_function option"
  ButtonLeftFunction :: "entry_function option"
  ButtonRightFunction :: "entry_function option"
  DisplayNameFunction :: "display_function option"
  DisplayValueFunction :: "display_function option"
  LoadFunction :: "persistence_function option"
  SaveFunction :: "persistence_function option"
  Choices :: "(string \<times> string) list"

abbreviation Pretty :: "string \<times> string \<Rightarrow> string" where "Pretty \<equiv> fst"
abbreviation Persistent :: "string \<times> string \<Rightarrow> string" where "Persistent \<equiv> snd"

section \<open>Default left and right\<close>

text \<open>
  \<open>DefaultRightFunction\<close> and \<open>DefaultLeftFunction\<close> act through
  \<open>(uint32_t*) ActiveMenuEntry->Target\<close>. An option entry's target must point to a
  \<open>uint32_t\<close>; for any other target the model leaves the memory alone.
\<close>

definition DefaultRightFunction :: "MenuEntry \<Rightarrow> memory \<Rightarrow> memory" where
  "DefaultRightFunction ActiveMenuEntry mem =
     (if Kind ActiveMenuEntry = KIND_OPTION then
        (case Target ActiveMenuEntry of
           GlobalTarget Target' \<Rightarrow>
             (let mem1 = mem(Target' := mem Target' + 1)
              in if mem1 Target' \<ge> ChoiceCount ActiveMenuEntry
                 then mem1(Target' := 0) else mem1)
         | _ \<Rightarrow> mem)
      else mem)"

definition DefaultLeftFunction :: "MenuEntry \<Rightarrow> memory \<Rightarrow> memory" where
  "DefaultLeftFunction ActiveMenuEntry mem =
     (if Kind ActiveMenuEntry = KIND_OPTION then
        (case Target ActiveMenuEntry of
           GlobalTarget Target' \<Rightarrow>
             (let mem1 = (if mem Target' = 0
                          then mem(Target' := ChoiceCount ActiveMenuEntry) else mem)
              in mem1(Target' := mem1 Target' - 1))
         | _ \<Rightarrow> mem)
      else mem)"


section \<open>The menu tree\<close>

text \<open>
  What gui.c takes from headers that are not part of it: the two build switches, the
  names of the left and top face buttons, the default remapping table and the bit of
  the lower face button.
\<close>

record port =
  GCW_ZERO :: bool
  PERFORMANCE_IMPACTING_STATISTICS :: bool
  LEFT_FACE_BUTTON_NAME :: string
  TOP_FACE_BUTTON_NAME :: string
  DefaultKeypadRemapping :: "u32 list"
  OPENDINGUX_BUTTON_FACE_DOWN :: u32

text \<open>A static object with no initialiser for a member has it zero or null.\<close>

definition zero_entry :: MenuEntry where
  "zero_entry =
    \<lparr>Kind = KIND_OPTION, Name = [], PersistentName = None, DisplayType = TYPE_STRING,
     Position = 0, Target = NoTarget, ChoiceCount = 0, ButtonEnterFunction = None,
     ButtonLeftFunction = None, ButtonRightFunction = None, DisplayNameFunction = None,
     DisplayValueFunction = None, LoadFunction = None, SaveFunction = None, Choices = []\<rparr>"

definition NativeCodeMenu_ROPeak :: MenuEntry where
  "NativeCodeMenu_ROPeak = zero_entry
    \<lparr>Kind := KIND_DISPLAY, Position := 0, Name := ''Read-only bytes at peak'',
       DisplayType := TYPE_UINT64,
       Target := DataTarget ''Stats.TranslationBytesPeak[TRANSLATION_REGION_READONLY]''\<rparr>"

definition NativeCodeMenu_RWPeak :: MenuEntry where
  "NativeCodeMenu_RWPeak = zero_entry
    \<lparr>Kind := KIND_DISPLAY, Position := 1, Name := ''Writable bytes at peak'',
       DisplayType := TYPE_UINT64,
       Target := DataTarget ''Stats.TranslationBytesPeak[TRANSLATION_REGION_WRITABLE]''\<rparr>"

definition NativeCodeMenu_ROFlushed :: MenuEntry where
  "NativeCodeMenu_ROFlushed = zero_entry
    \<lparr>Kind := KIND_DISPLAY, Position := 2, Name := ''Read-only bytes flushed'',
       DisplayType := TYPE_UINT64,
       Target := DataTarget ''Stats.TranslationBytesFlushed[TRANSLATION_REGION_READONLY]''\<rparr>"

definition NativeCodeMenu_RWFlushed :: MenuEntry where
  "NativeCodeMenu_RWFlushed = zero_entry
    \<lparr>Kind := KIND_DISPLAY, Position := 3, Name := ''Writable bytes flushed'',
       DisplayType := TYPE_UINT64,
       Target := DataTarget ''Stats.TranslationBytesFlushed[TRANSLATION_REGION_WRITABLE]''\<rparr>"

definition DebugMenu_NativeCode :: MenuEntry where
  "DebugMenu_NativeCode = zero_entry
    \<lparr>Kind := KIND_SUBMENU, Position := 0, Name := ''Native code statistics...'',
       Target := MenuTarget NativeCodeMenu\<rparr>"

definition MetadataMenu_ROFull :: MenuEntry where
  "MetadataMenu_ROFull = zero_entry
    \<lparr>Kind := KIND_DISPLAY, Position := 0, Name := ''Read-only area full'',
       DisplayType := TYPE_UINT64,
       Target := DataTarget ''Stats.TranslationFlushCount[TRANSLATION_REGION_READONLY][FLUSH_REASON_FULL_CACHE]''\<rparr>"

definition MetadataMenu_RWFull :: MenuEntry where
  "MetadataMenu_RWFull = zero_entry
    \<lparr>Kind := KIND_DISPLAY, Position := 1, Name := ''Writable area full'',
       DisplayType := TYPE_UINT64,
       Target := DataTarget ''Stats.TranslationFlushCount[TRANSLATION_REGION_WRITABLE][FLUSH_REASON_FULL_CACHE]''\<rparr>"

definition MetadataMenu_BIOSLastTag :: MenuEntry where
  "MetadataMenu_BIOSLastTag = zero_entry
    \<lparr>Kind := KIND_DISPLAY, Position := 2, Name := ''BIOS tags full'',
       DisplayType := TYPE_UINT64,
       Target := DataTarget ''Stats.MetadataClearCount[METADATA_AREA_BIOS][CLEAR_REASON_LAST_TAG]''\<rparr>"

definition MetadataMenu_EWRAMLastTag :: MenuEntry where
  "MetadataMenu_EWRAMLastTag = zero_entry
    \<lparr>Kind := KIND_DISPLAY, Position := 3, Name := ''EWRAM tags full'',
       DisplayType := TYPE_UINT64,
       Target := DataTarget ''Stats.MetadataClearCount[METADATA_AREA_EWRAM][CLEAR_REASON_LAST_TAG]''\<rparr>"

definition MetadataMenu_IWRAMLastTag :: MenuEntry where
  "MetadataMenu_IWRAMLastTag = zero_entry
    \<lparr>Kind := KIND_DISPLAY, Position := 4, Name := ''IWRAM tags full'',
       DisplayType := TYPE_UINT64,
       Target := DataTarget ''Stats.MetadataClearCount[METADATA_AREA_IWRAM][CLEAR_REASON_LAST_TAG]''\<rparr>"

definition MetadataMenu_VRAMLastTag :: MenuEntry where
  "MetadataMenu_VRAMLastTag = zero_entry
    \<lparr>Kind := KIND_DISPLAY, Position := 5, Name := ''VRAM tags full'',
       DisplayType := TYPE_UINT64,
       Target := DataTarget ''Stats.MetadataClearCount[METADATA_AREA_VRAM][CLEAR_REASON_LAST_TAG]''\<rparr>"

definition MetadataMenu_PartialClears :: MenuEntry where
  "MetadataMenu_PartialClears = zero_entry
    \<lparr>Kind := KIND_DISPLAY, Position := 7, Name := ''Partial clears'',
       DisplayType := TYPE_UINT64, Target := DataTarget ''Stats.PartialFlushCount''\<rparr>"

definition DebugMenu_Metadata :: MenuEntry where
  "DebugMenu_Metadata = zero_entry
    \<lparr>Kind := KIND_SUBMENU, Position := 1, Name := ''Metadata clear statistics...'',
       Target := MenuTarget MetadataMenu\<rparr>"

definition ExecutionMenu_SoundUnderruns :: MenuEntry where
  "ExecutionMenu_SoundUnderruns = zero_entry
    \<lparr>Kind := KIND_DISPLAY, Position := 0, Name := ''Sound buffer underruns'',
       DisplayType := TYPE_UINT64, Target := DataTarget ''Stats.SoundBufferUnderrunCount''\<rparr>"

definition ExecutionMenu_FramesEmulated :: MenuEntry where
  "ExecutionMenu_FramesEmulated = zero_entry
    \<lparr>Kind := KIND_DISPLAY, Position := 1, Name := ''Frames emulated'',
       DisplayType := TYPE_UINT64, Target := DataTarget ''Stats.TotalEmulatedFrames''\<rparr>"

definition ExecutionMenu_ARMOps :: MenuEntry where
  "ExecutionMenu_ARMOps = zero_entry
    \<lparr>Kind := KIND_DISPLAY, Position := 2, Name := ''ARM opcodes decoded'',
       DisplayType := TYPE_UINT64, Target := DataTarget ''Stats.ARMOpcodesDecoded''\<rparr>"

definition ExecutionMenu_ThumbOps :: MenuEntry where
  "ExecutionMenu_ThumbOps = zero_entry
    \<lparr>Kind := KIND_DISPLAY, Position := 3, Name := ''Thumb opcodes decoded'',
       DisplayType := TYPE_UINT64, Target := DataTarget ''Stats.ThumbOpcodesDecoded''\<rparr>"

definition ExecutionMenu_MemAccessors :: MenuEntry where
  "ExecutionMenu_MemAccessors = zero_entry
    \<lparr>Kind := KIND_DISPLAY, Position := 4, Name := ''Memory accessors patched'',
       DisplayType := TYPE_UINT32, Target := DataTarget ''Stats.WrongAddressLineCount''\<rparr>"

definition DebugMenu_Execution :: MenuEntry where
  "DebugMenu_Execution = zero_entry
    \<lparr>Kind := KIND_SUBMENU, Position := 2, Name := ''Execution statistics...'',
       Target := MenuTarget ExecutionMenu\<rparr>"

definition ReuseMenu_OpsRecompiled :: MenuEntry where
  "ReuseMenu_OpsRecompiled = zero_entry
    \<lparr>Kind := KIND_DISPLAY, Position := 0, Name := ''Opcodes recompiled'',
       DisplayType := TYPE_UINT64, Target := DataTarget ''Stats.OpcodeRecompilationCount''\<rparr>"

definition ReuseMenu_BlocksRecompiled :: MenuEntry where
  "ReuseMenu_BlocksRecompiled = zero_entry
    \<lparr>Kind := KIND_DISPLAY, Position := 1, Name := ''Blocks recompiled'',
       DisplayType := TYPE_UINT64, Target := DataTarget ''Stats.BlockRecompilationCount''\<rparr>"

definition ReuseMenu_OpsReused :: MenuEntry where
  "ReuseMenu_OpsReused = zero_entry
    \<lparr>Kind := KIND_DISPLAY, Position := 2, Name := ''Opcodes reused'',
       DisplayType := TYPE_UINT64, Target := DataTarget ''Stats.OpcodeReuseCount''\<rparr>"

definition ReuseMenu_BlocksReused :: MenuEntry where
  "ReuseMenu_BlocksReused = zero_entry
    \<lparr>Kind := KIND_DISPLAY, Position := 3, Name := ''Blocks reused'',
       DisplayType := TYPE_UINT64, Target := DataTarget ''Stats.BlockReuseCount''\<rparr>"

definition DebugMenu_Reuse :: MenuEntry where
  "DebugMenu_Reuse = zero_entry
    \<lparr>Kind := KIND_SUBMENU, Position := 3, Name := ''Code reuse statistics...'',
       Target := MenuTarget ReuseMenu\<rparr>"

definition ROMInfoMenu_GameName :: MenuEntry where
  "ROMInfoMenu_GameName = zero_entry
    \<lparr>Kind := KIND_DISPLAY, Position := 0, Name := ''game_name ='',
       DisplayType := TYPE_STRING, Target := DataTarget ''gamepak_title''\<rparr>"

definition ROMInfoMenu_GameCode :: MenuEntry where
  "ROMInfoMenu_GameCode = zero_entry
    \<lparr>Kind := KIND_DISPLAY, Position := 1, Name := ''game_code ='',
       DisplayType := TYPE_STRING, Target := DataTarget ''gamepak_code''\<rparr>"

definition ROMInfoMenu_VendorCode :: MenuEntry where
  "ROMInfoMenu_VendorCode = zero_entry
    \<lparr>Kind := KIND_DISPLAY, Position := 2, Name := ''vender_code ='',
       DisplayType := TYPE_STRING, Target := DataTarget ''gamepak_maker''\<rparr>"

definition DebugMenu_ROMInfo :: MenuEntry where
  "DebugMenu_ROMInfo = zero_entry
    \<lparr>Kind := KIND_SUBMENU, Position := 5, Name := ''ROM information...'',
       Target := MenuTarget ROMInfoMenu\<rparr>"

definition DisplayMenu_BootSource :: MenuEntry where
  "DisplayMenu_BootSource = zero_entry
    \<lparr>Kind := KIND_OPTION, Position := 0, Name := ''Boot from'',
       PersistentName := Some ''boot_from'', Target := GlobalTarget Addr_BootFromBIOS,
       ChoiceCount := 2,
       Choices := [(''Cartridge ROM'', ''cartridge''), (''GBA BIOS'', ''gba_bios'')]\<rparr>"

definition DisplayMenu_FPSCounter :: MenuEntry where
  "DisplayMenu_FPSCounter = zero_entry
    \<lparr>Kind := KIND_OPTION, Position := 1, Name := ''FPS counter'',
       PersistentName := Some ''fps_counter'', Target := GlobalTarget Addr_ShowFPS,
       ChoiceCount := 2, Choices := [(''Hide'', ''hide''), (''Show'', ''show'')]\<rparr>"

definition DisplayMenu_ScaleMode :: MenuEntry where
  "DisplayMenu_ScaleMode = zero_entry
    \<lparr>Kind := KIND_OPTION, Position := 2, Name := ''Image scaling'',
       PersistentName := Some ''image_size'', Target := GlobalTarget Addr_ScaleMode,
       ChoiceCount := 3,
       Choices := [(''Aspect'', ''aspect''), (''Full'', ''fullscreen''), (''None'', ''original'')]\<rparr>"

definition DisplayMenu_Frameskip :: MenuEntry where
  "DisplayMenu_Frameskip = zero_entry
    \<lparr>Kind := KIND_OPTION, Position := 3, Name := ''Frame skipping'',
       PersistentName := Some ''frameskip'', Target := GlobalTarget Addr_UserFrameskip,
       ChoiceCount := 5,
       Choices := [(''Automatic'', ''auto''), (''0 (~60 FPS)'', ''0''), (''1 (~30 FPS)'', ''1''), (''2 (~20 FPS)'', ''2''), (''3 (~15 FPS)'', ''3'')]\<rparr>"

definition DisplayMenu_FastForwardTarget :: MenuEntry where
  "DisplayMenu_FastForwardTarget = zero_entry
    \<lparr>Kind := KIND_OPTION, Position := 4, Name := ''Fast-forward target'',
       PersistentName := Some ''fast_forward_target'',
       Target := GlobalTarget Addr_FastForwardTarget, ChoiceCount := 5,
       Choices := [(''2x (~120 FPS)'', ''2''), (''3x (~180 FPS)'', ''3''), (''4x (~240 FPS)'', ''4''), (''5x (~300 FPS)'', ''5''), (''6x (~360 FPS)'', ''6'')]\<rparr>"

definition ButtonMappingMenu_A :: MenuEntry where
  "ButtonMappingMenu_A = zero_entry
    \<lparr>Kind := KIND_OPTION, Position := 0, Name := ''GBA A'',
       PersistentName := Some ''gba_a'', Target := GlobalTarget (Addr_KeypadRemapping 0),
       ChoiceCount := 0, ButtonLeftFunction := Some Fn_NullLeftFunction,
       ButtonRightFunction := Some Fn_NullRightFunction,
       ButtonEnterFunction := Some Fn_ActionSetMapping,
       DisplayValueFunction := Some Fn_DisplayButtonMappingValue,
       LoadFunction := Some Fn_LoadMappingFunction,
       SaveFunction := Some Fn_SaveMappingFunction\<rparr>"

definition ButtonMappingMenu_B :: MenuEntry where
  "ButtonMappingMenu_B = zero_entry
    \<lparr>Kind := KIND_OPTION, Position := 1, Name := ''GBA B'',
       PersistentName := Some ''gba_b'', Target := GlobalTarget (Addr_KeypadRemapping 1),
       ChoiceCount := 0, ButtonLeftFunction := Some Fn_NullLeftFunction,
       ButtonRightFunction := Some Fn_NullRightFunction,
       ButtonEnterFunction := Some Fn_ActionSetMapping,
       DisplayValueFunction := Some Fn_DisplayButtonMappingValue,
       LoadFunction := Some Fn_LoadMappingFunction,
       SaveFunction := Some Fn_SaveMappingFunction\<rparr>"

definition ButtonMappingMenu_Start :: MenuEntry where
  "ButtonMappingMenu_Start = zero_entry
    \<lparr>Kind := KIND_OPTION, Position := 2, Name := ''GBA Start'',
       PersistentName := Some ''gba_start'',
       Target := GlobalTarget (Addr_KeypadRemapping 3), ChoiceCount := 0,
       ButtonLeftFunction := Some Fn_NullLeftFunction,
       ButtonRightFunction := Some Fn_NullRightFunction,
       ButtonEnterFunction := Some Fn_ActionSetMapping,
       DisplayValueFunction := Some Fn_DisplayButtonMappingValue,
       LoadFunction := Some Fn_LoadMappingFunction,
       SaveFunction := Some Fn_SaveMappingFunction\<rparr>"

definition ButtonMappingMenu_Select :: MenuEntry where
  "ButtonMappingMenu_Select = zero_entry
    \<lparr>Kind := KIND_OPTION, Position := 3, Name := ''GBA Select'',
       PersistentName := Some ''gba_select'',
       Target := GlobalTarget (Addr_KeypadRemapping 2), ChoiceCount := 0,
       ButtonLeftFunction := Some Fn_NullLeftFunction,
       ButtonRightFunction := Some Fn_NullRightFunction,
       ButtonEnterFunction := Some Fn_ActionSetMapping,
       DisplayValueFunction := Some Fn_DisplayButtonMappingValue,
       LoadFunction := Some Fn_LoadMappingFunction,
       SaveFunction := Some Fn_SaveMappingFunction\<rparr>"

definition ButtonMappingMenu_L :: MenuEntry where
  "ButtonMappingMenu_L = zero_entry
    \<lparr>Kind := KIND_OPTION, Position := 4, Name := ''GBA L'',
       PersistentName := Some ''gba_l'', Target := GlobalTarget (Addr_KeypadRemapping 9),
       ChoiceCount := 0, ButtonLeftFunction := Some Fn_NullLeftFunction,
       ButtonRightFunction := Some Fn_NullRightFunction,
       ButtonEnterFunction := Some Fn_ActionSetMapping,
       DisplayValueFunction := Some Fn_DisplayButtonMappingValue,
       LoadFunction := Some Fn_LoadMappingFunction,
       SaveFunction := Some Fn_SaveMappingFunction\<rparr>"

definition ButtonMappingMenu_R :: MenuEntry where
  "ButtonMappingMenu_R = zero_entry
    \<lparr>Kind := KIND_OPTION, Position := 5, Name := ''GBA R'',
       PersistentName := Some ''gba_r'', Target := GlobalTarget (Addr_KeypadRemapping 8),
       ChoiceCount := 0, ButtonLeftFunction := Some Fn_NullLeftFunction,
       ButtonRightFunction := Some Fn_NullRightFunction,
       ButtonEnterFunction := Some Fn_ActionSetMapping,
       DisplayValueFunction := Some Fn_DisplayButtonMappingValue,
       LoadFunction := Some Fn_LoadMappingFunction,
       SaveFunction := Some Fn_SaveMappingFunction\<rparr>"

definition ButtonMappingMenu_RapidA :: MenuEntry where
  "ButtonMappingMenu_RapidA = zero_entry
    \<lparr>Kind := KIND_OPTION, Position := 6, Name := ''Rapid-fire A'',
       PersistentName := Some ''rapid_a'',
       Target := GlobalTarget (Addr_KeypadRemapping 10), ChoiceCount := 0,
       ButtonLeftFunction := Some Fn_NullLeftFunction,
       ButtonRightFunction := Some Fn_NullRightFunction,
       ButtonEnterFunction := Some Fn_ActionSetOrClearMapping,
       DisplayValueFunction := Some Fn_DisplayButtonMappingValue,
       LoadFunction := Some Fn_LoadMappingFunction,
       SaveFunction := Some Fn_SaveMappingFunction\<rparr>"

definition ButtonMappingMenu_RapidB :: MenuEntry where
  "ButtonMappingMenu_RapidB = zero_entry
    \<lparr>Kind := KIND_OPTION, Position := 7, Name := ''Rapid-fire B'',
       PersistentName := Some ''rapid_b'',
       Target := GlobalTarget (Addr_KeypadRemapping 11), ChoiceCount := 0,
       ButtonLeftFunction := Some Fn_NullLeftFunction,
       ButtonRightFunction := Some Fn_NullRightFunction,
       ButtonEnterFunction := Some Fn_ActionSetOrClearMapping,
       DisplayValueFunction := Some Fn_DisplayButtonMappingValue,
       LoadFunction := Some Fn_LoadMappingFunction,
       SaveFunction := Some Fn_SaveMappingFunction\<rparr>"

definition ButtonMappingMenu_AnalogSensitivity :: MenuEntry where
  "ButtonMappingMenu_AnalogSensitivity = zero_entry
    \<lparr>Kind := KIND_OPTION, Position := 9, Name := ''Analog sensitivity'',
       PersistentName := Some ''analog_sensitivity'',
       Target := GlobalTarget Addr_AnalogSensitivity, ChoiceCount := 5,
       Choices := [(''Very low'', ''lowest''), (''Low'', ''low''), (''Medium'', ''medium''), (''High'', ''high''), (''Highest'', ''highest'')]\<rparr>"

definition HotkeyMenu_FastForward :: MenuEntry where
  "HotkeyMenu_FastForward = zero_entry
    \<lparr>Kind := KIND_OPTION, Position := 0, Name := ''Fast-forward'',
       PersistentName := Some ''hotkey_fast_forward'',
       Target := GlobalTarget (Addr_Hotkeys 0), ChoiceCount := 0,
       ButtonLeftFunction := Some Fn_NullLeftFunction,
       ButtonRightFunction := Some Fn_NullRightFunction,
       ButtonEnterFunction := Some Fn_ActionSetOrClearHotkey,
       DisplayValueFunction := Some Fn_DisplayHotkeyValue,
       LoadFunction := Some Fn_LoadHotkeyFunction,
       SaveFunction := Some Fn_SaveHotkeyFunction\<rparr>"

definition MainMenu_Display :: MenuEntry where
  "MainMenu_Display = zero_entry
    \<lparr>Kind := KIND_SUBMENU, Position := 0, Name := ''Display settings...'',
       Target := MenuTarget DisplayMenu\<rparr>"

definition MainMenu_ButtonMapping :: MenuEntry where
  "MainMenu_ButtonMapping = zero_entry
    \<lparr>Kind := KIND_SUBMENU, Position := 1, Name := ''Input settings...'',
       Target := MenuTarget ButtonMappingMenu\<rparr>"

definition MainMenu_Hotkey :: MenuEntry where
  "MainMenu_Hotkey = zero_entry
    \<lparr>Kind := KIND_SUBMENU, Position := 2, Name := ''Hotkeys...'',
       Target := MenuTarget HotkeyMenu\<rparr>"

definition MainMenu_Debug :: MenuEntry where
  "MainMenu_Debug = zero_entry
    \<lparr>Kind := KIND_SUBMENU, Position := 7, Name := ''Performance and debugging...'',
       Target := MenuTarget DebugMenu\<rparr>"

definition MainMenu_Reset :: MenuEntry where
  "MainMenu_Reset = zero_entry
    \<lparr>Kind := KIND_CUSTOM, Position := 9, Name := ''Reset the game'',
       ButtonEnterFunction := Some Fn_ActionReset\<rparr>"

definition MainMenu_Return :: MenuEntry where
  "MainMenu_Return = zero_entry
    \<lparr>Kind := KIND_CUSTOM, Position := 10, Name := ''Return to the game'',
       ButtonEnterFunction := Some Fn_ActionReturn\<rparr>"

definition MainMenu_Exit :: MenuEntry where
  "MainMenu_Exit = zero_entry
    \<lparr>Kind := KIND_CUSTOM, Position := 11, Name := ''Exit'',
       ButtonEnterFunction := Some Fn_ActionExit\<rparr>"

text \<open>
  \<open>struct Menu\<close>. Every menu of gui.c leaves its function-pointer members
  (background, title and data display, up, down, leave, init and end) null, so
  \<open>ReGBA_Menu\<close> always takes the defaults; the record has no members for them.
  \<open>ActiveEntryIndex\<close> changes while the menu runs and lives in the navigation state.
  \<open>Entries\<close> is the array as the initialiser writes it, \<open>None\<close> being the \<open>NULL\<close>
  that ends it. The initialiser of \<open>DisplayMenu\<close> has no \<open>NULL\<close>.
\<close>

record Menu =
  Parent :: "menu_id option"
  Title :: string
  Entries :: "MenuEntry option list"

fun menu :: "port \<Rightarrow> menu_id \<Rightarrow> Menu" where
  "menu p NativeCodeMenu =
    \<lparr>Parent = Some DebugMenu, Title = ''Native code statistics'',
     Entries = [Some NativeCodeMenu_ROPeak, Some NativeCodeMenu_RWPeak,
                Some NativeCodeMenu_ROFlushed, Some NativeCodeMenu_RWFlushed, None]\<rparr>"
| "menu p MetadataMenu =
    \<lparr>Parent = Some DebugMenu, Title = ''Metadata clear statistics'',
     Entries = [Some MetadataMenu_ROFull, Some MetadataMenu_RWFull,
                Some MetadataMenu_BIOSLastTag, Some MetadataMenu_EWRAMLastTag,
                Some MetadataMenu_IWRAMLastTag, Some MetadataMenu_VRAMLastTag,
                Some MetadataMenu_PartialClears, None]\<rparr>"
| "menu p ExecutionMenu =
    \<lparr>Parent = Some DebugMenu, Title = ''Execution statistics'',
     Entries = [Some ExecutionMenu_SoundUnderruns, Some ExecutionMenu_FramesEmulated]
               @ (if PERFORMANCE_IMPACTING_STATISTICS p
                  then [Some ExecutionMenu_ARMOps, Some ExecutionMenu_ThumbOps,
                        Some ExecutionMenu_MemAccessors]
                  else [])
               @ [None]\<rparr>"
| "menu p ReuseMenu =
    \<lparr>Parent = Some DebugMenu, Title = ''Code reuse statistics'',
     Entries = [Some ReuseMenu_OpsRecompiled, Some ReuseMenu_BlocksRecompiled,
                Some ReuseMenu_OpsReused, Some ReuseMenu_BlocksReused, None]\<rparr>"
| "menu p ROMInfoMenu =
    \<lparr>Parent = Some DebugMenu, Title = ''ROM information'',
     Entries = [Some ROMInfoMenu_GameName, Some ROMInfoMenu_GameCode,
                Some ROMInfoMenu_VendorCode, None]\<rparr>"
| "menu p DebugMenu =
    \<lparr>Parent = Some MainMenu, Title = ''Performance and debugging'',
     Entries = [Some DebugMenu_NativeCode, Some DebugMenu_Metadata, Some DebugMenu_Execution]
               @ (if PERFORMANCE_IMPACTING_STATISTICS p then [Some DebugMenu_Reuse] else [])
               @ [Some DebugMenu_ROMInfo, None]\<rparr>"
| "menu p DisplayMenu =
    \<lparr>Parent = Some MainMenu, Title = ''Display settings'',
     Entries = [Some DisplayMenu_BootSource, Some DisplayMenu_FPSCounter,
                Some DisplayMenu_ScaleMode, Some DisplayMenu_Frameskip,
                Some DisplayMenu_FastForwardTarget]\<rparr>"
| "menu p ButtonMappingMenu =
    \<lparr>Parent = Some MainMenu, Title = ''Input settings'',
     Entries = [Some ButtonMappingMenu_A, Some ButtonMappingMenu_B,
                Some ButtonMappingMenu_Start, Some ButtonMappingMenu_Select,
                Some ButtonMappingMenu_L, Some ButtonMappingMenu_R,
                Some ButtonMappingMenu_RapidA, Some ButtonMappingMenu_RapidB]
               @ (if GCW_ZERO p then [Some ButtonMappingMenu_AnalogSensitivity] else [])
               @ [None]\<rparr>"
| "menu p HotkeyMenu =
    \<lparr>Parent = Some MainMenu, Title = ''Hotkeys'',
     Entries = [Some HotkeyMenu_FastForward, None]\<rparr>"
| "menu p MainMenu =
    \<lparr>Parent = None, Title = ''ReGBA Main Menu'',
     Entries = [Some MainMenu_Display, Some MainMenu_ButtonMapping, Some MainMenu_Hotkey,
                Some MainMenu_Debug, Some MainMenu_Reset, Some MainMenu_Return,
                Some MainMenu_Exit, None]\<rparr>"

section \<open>Decimal printing\<close>

text \<open>
  A \<open>char\<close> array is a list of characters and a \<open>char*\<close> into it is an offset. A C
  string ends at the first NUL.
\<close>

definition NUL :: char where
  "NUL = CHR 0x00"

definition c_str :: "char list \<Rightarrow> nat \<Rightarrow> string" where
  "c_str buf p = takeWhile (\<lambda>c. c \<noteq> NUL) (drop p buf)"

fun strcpy :: "char list \<Rightarrow> nat \<Rightarrow> string \<Rightarrow> char list" where
  "strcpy buf p [] = buf[p := NUL]"
| "strcpy buf p (c # cs) = strcpy (buf[p := c]) (p + 1) cs"

text \<open>\<open>'0' + (Value % 10)\<close>\<close>

definition digit_char :: "u64 \<Rightarrow> char" where
  "digit_char d = char_of (of_char CHR ''0'' + unat d :: nat)"

text \<open>
  The two \<open>while\<close> statements of \<open>print_u64\<close>. \<open>Length\<close> is a \<open>uint_fast8_t\<close>; it stays below 21, so
  a natural number stands for it.
\<close>

function count_digits :: "u64 \<Rightarrow> nat \<Rightarrow> nat" where
  "count_digits Temp Length =
     (if Temp > 0 then count_digits (Temp div 10) (Length + 1) else Length)"
  by pat_completeness auto
termination
  by (relation "measure (\<lambda>(Temp, Length). unat Temp)")
     (auto simp: unat_div word_greater_zero_iff unat_gt_0)

function write_digits :: "char list \<Rightarrow> nat \<Rightarrow> u64 \<Rightarrow> nat \<Rightarrow> char list" where
  "write_digits buf Result Value Length =
     (if Value > 0
      then write_digits (buf[Result + (Length - 1) := digit_char (Value mod 10)])
                        Result (Value div 10) (Length - 1)
      else buf)"
  by pat_completeness auto
termination
  by (relation "measure (\<lambda>(buf, Result, Value, Length). unat Value)")
     (auto simp: unat_div word_greater_zero_iff unat_gt_0)

definition print_u64 :: "char list \<Rightarrow> nat \<Rightarrow> u64 \<Rightarrow> char list" where
  "print_u64 buf Result Value =
     (if Value = 0 then strcpy buf Result ''0''
      else let Length = count_digits Value 0;
               buf = buf[Result + Length := NUL]
           in write_digits buf Result Value Length)"

definition print_i64 :: "char list \<Rightarrow> nat \<Rightarrow> u64 \<Rightarrow> char list" where
  "print_i64 buf Result Value =
     (if sint Value < - 9223372036854775807 then strcpy buf Result ''-9223372036854775808''
      else if sint Value < 0 then print_u64 (buf[Result := CHR ''-'']) (Result + 1) (- Value)
      else print_u64 buf Result Value)"

text \<open>The standard decimal representation, as the specification names it.\<close>

definition decimal_digit :: "nat \<Rightarrow> char" where
  "decimal_digit d = ''0123456789'' ! d"

function decimal_nat :: "nat \<Rightarrow> string" where
  "decimal_nat n = (if n < 10 then [decimal_digit n]
                    else decimal_nat (n div 10) @ [decimal_digit (n mod 10)])"
  by pat_completeness auto
termination
  by (relation "measure id") auto

definition decimal_int :: "int \<Rightarrow> string" where
  "decimal_int i = (if i < 0 then CHR ''-'' # decimal_nat (nat (- i)) else decimal_nat (nat i))"


text \<open>The digits of a positive number, most significant first; empty for 0.\<close>

function digits_of :: "nat \<Rightarrow> string" where
  "digits_of n = (if n = 0 then [] else digits_of (n div 10) @ [decimal_digit (n mod 10)])"
  by pat_completeness auto
termination
  by (relation "measure id") auto

text \<open>Reading a string of decimal digits back as a number.\<close>

definition decimal_value :: "string \<Rightarrow> nat" where
  "decimal_value s = foldl (\<lambda>a c. 10 * a + (of_char c - of_char CHR ''0'')) 0 s"

section \<open>Button capture\<close>

text \<open>
  The table \<open>OpenDinguxButtonText\<close> has sixteen initialisers, one for each button of
  \<open>enum OpenDingux_Buttons\<close>; button \<open>i\<close> is the bit \<open>1 << i\<close>.
\<close>

definition OPENDINGUX_BUTTON_COUNT :: nat where
  "OPENDINGUX_BUTTON_COUNT = 16"

text \<open>
  \<open>GetPressedOpenDinguxButtons\<close> is the input collaborator: each call gives the set of
  buttons held in the next frame. The frames still to come are a list, a call takes
  its head. A wait that is still waiting when the list ends has not returned: \<open>None\<close>.
  Drawing and sleeping between two polls change nothing that the model holds.
\<close>

fun await_release :: "u32 list \<Rightarrow> u32 list option" where
  "await_release [] = None"
| "await_release (pressed # frames) =
     (if pressed \<noteq> 0 then await_release frames else Some frames)"

fun await_press :: "u32 list \<Rightarrow> (u32 \<times> u32 list) option" where
  "await_press [] = None"
| "await_press (Buttons # frames) =
     (if Buttons = 0 then await_press frames else Some (Buttons, frames))"

fun GrabButton_accumulate :: "u32 \<Rightarrow> u32 list \<Rightarrow> (u32 \<times> u32 list) option" where
  "GrabButton_accumulate ButtonTotal [] = None"
| "GrabButton_accumulate ButtonTotal (Buttons # frames) =
     (if Buttons \<noteq> 0 then GrabButton_accumulate (ButtonTotal OR Buttons) frames
      else Some (ButtonTotal, frames))"

definition GrabButton :: "u32 list \<Rightarrow> (u32 \<times> u32 list) option" where
  "GrabButton frames =
     (case await_release frames of
        None \<Rightarrow> None
      | Some frames1 \<Rightarrow>
          (case await_press frames1 of
             None \<Rightarrow> None
           | Some (Buttons, frames2) \<Rightarrow> GrabButton_accumulate Buttons frames2))"

fun GrabButtons_accumulate :: "u32 \<Rightarrow> u32 list \<Rightarrow> (u32 \<times> u32 list) option" where
  "GrabButtons_accumulate ButtonTotal [] = None"
| "GrabButtons_accumulate ButtonTotal (Buttons # frames) =
     (if Buttons \<noteq> 0 then
        GrabButtons_accumulate
          (if (Buttons OR ButtonTotal) = Buttons then ButtonTotal OR Buttons
           else if (Buttons OR ButtonTotal) = ButtonTotal then ButtonTotal
           else Buttons)
          frames
      else Some (ButtonTotal, frames))"

definition GrabButtons :: "u32 list \<Rightarrow> (u32 \<times> u32 list) option" where
  "GrabButtons frames =
     (case await_release frames of
        None \<Rightarrow> None
      | Some frames1 \<Rightarrow>
          (case await_press frames1 of
             None \<Rightarrow> None
           | Some (Buttons, frames2) \<Rightarrow> GrabButtons_accumulate Buttons frames2))"

text \<open>The count of set bits among the sixteen buttons, as both mapping actions do it.\<close>

definition BitCount :: "u32 \<Rightarrow> nat" where
  "BitCount ButtonTotal =
     fold (\<lambda>i BitCount. if ButtonTotal AND push_bit i 1 \<noteq> 0 then BitCount + 1 else BitCount)
          [0..<OPENDINGUX_BUTTON_COUNT] 0"

text \<open>
  The three capture actions get the active entry from \<open>ReGBA_Menu\<close> and write through its
  target, which must point to a \<open>uint32_t\<close>. They return the memory and the frames left.
\<close>

definition ActionSetMapping :: "MenuEntry \<Rightarrow> u32 list \<Rightarrow> memory \<Rightarrow> (memory \<times> u32 list) option" where
  "ActionSetMapping entry frames mem =
     (case GrabButton frames of
        None \<Rightarrow> None
      | Some (ButtonTotal, frames') \<Rightarrow>
          (case Target entry of
             GlobalTarget Target' \<Rightarrow>
               Some (if BitCount ButtonTotal = 1 then mem(Target' := ButtonTotal) else mem,
                     frames')
           | _ \<Rightarrow> Some (mem, frames')))"

definition ActionSetOrClearMapping :: "MenuEntry \<Rightarrow> u32 list \<Rightarrow> memory \<Rightarrow> (memory \<times> u32 list) option" where
  "ActionSetOrClearMapping entry frames mem =
     (case GrabButton frames of
        None \<Rightarrow> None
      | Some (ButtonTotal, frames') \<Rightarrow>
          (case Target entry of
             GlobalTarget Target' \<Rightarrow>
               Some (mem(Target' := (if BitCount ButtonTotal = 1 then ButtonTotal else 0)),
                     frames')
           | _ \<Rightarrow> Some (mem, frames')))"

definition ActionSetOrClearHotkey :: "port \<Rightarrow> MenuEntry \<Rightarrow> u32 list \<Rightarrow> memory \<Rightarrow> (memory \<times> u32 list) option" where
  "ActionSetOrClearHotkey p entry frames mem =
     (case GrabButtons frames of
        None \<Rightarrow> None
      | Some (ButtonTotal, frames') \<Rightarrow>
          (case Target entry of
             GlobalTarget Target' \<Rightarrow>
               Some (mem(Target' := (if ButtonTotal = OPENDINGUX_BUTTON_FACE_DOWN p then 0
                                     else ButtonTotal)),
                     frames')
           | _ \<Rightarrow> Some (mem, frames')))"

section \<open>The settings codec\<close>

text \<open>
  \<open>strcasecmp(a, b) == 0\<close>, the only use gui.c makes of \<open>strcasecmp\<close>: the two strings
  are equal once every upper-case ASCII letter is replaced by its lower-case letter.
\<close>

definition tolower :: "char \<Rightarrow> char" where
  "tolower c =
     (case map_of (zip ''ABCDEFGHIJKLMNOPQRSTUVWXYZ'' ''abcdefghijklmnopqrstuvwxyz'') c of
        Some l \<Rightarrow> l
      | None \<Rightarrow> c)"

definition strcasecmp_is_0 :: "string \<Rightarrow> string \<Rightarrow> bool" where
  "strcasecmp_is_0 a b \<longleftrightarrow> map tolower a = map tolower b"

text \<open>
  \<open>for (i = from; i < n; i++) if (P i) { ...; break; }\<close>: the first index at which the
  test holds, if any.
\<close>

function first_index :: "(nat \<Rightarrow> bool) \<Rightarrow> nat \<Rightarrow> nat \<Rightarrow> nat option" where
  "first_index P i n =
     (if i < n then (if P i then Some i else first_index P (i + 1) n) else None)"
  by pat_completeness auto
termination
  by (relation "measure (\<lambda>(P, i, n). n - i)") auto

declare first_index.simps [simp del]

text \<open>\<open>snprintf(Value, 256, ...)\<close> keeps at most 255 characters of the formatted text.\<close>

definition snprintf_256 :: "string \<Rightarrow> string" where
  "snprintf_256 s = take 255 s"

datatype error = NullDereference | OutOfBounds | BadTarget

text \<open>
  The value that an option entry points at, and the write through the same pointer.
  A target that is not a \<open>uint32_t*\<close> is an error of the tables.
\<close>

definition read_target :: "MenuEntry \<Rightarrow> memory \<Rightarrow> error + u32" where
  "read_target entry mem =
     (case Target entry of GlobalTarget a \<Rightarrow> Inr (mem a) | _ \<Rightarrow> Inl BadTarget)"

definition write_target :: "MenuEntry \<Rightarrow> u32 \<Rightarrow> memory \<Rightarrow> error + memory" where
  "write_target entry v mem =
     (case Target entry of GlobalTarget a \<Rightarrow> Inr (mem(a := v)) | _ \<Rightarrow> Inl BadTarget)"

subsection \<open>Choice lists\<close>

text \<open>
  \<open>DefaultLoadFunction\<close> returns the memory and, when no choice matches, the warning it
  traces. \<open>Choices[i]\<close> past the initialised pairs is outside the array.
\<close>

function DefaultLoad_scan :: "MenuEntry \<Rightarrow> string \<Rightarrow> nat \<Rightarrow> error + nat option" where
  "DefaultLoad_scan ActiveMenuEntry Value i =
     (if i < unat (ChoiceCount ActiveMenuEntry) then
        (if i < length (Choices ActiveMenuEntry) then
           (if strcasecmp_is_0 (Persistent (Choices ActiveMenuEntry ! i)) Value
            then Inr (Some i)
            else DefaultLoad_scan ActiveMenuEntry Value (i + 1))
         else Inl OutOfBounds)
      else Inr None)"
  by pat_completeness auto
termination
  by (relation "measure (\<lambda>(e, Value, i). unat (ChoiceCount e) - i)") auto

declare DefaultLoad_scan.simps [simp del]

definition DefaultLoadFunction ::
  "MenuEntry \<Rightarrow> string \<Rightarrow> memory \<Rightarrow> error + memory \<times> string list" where
  "DefaultLoadFunction ActiveMenuEntry Value mem =
     (case DefaultLoad_scan ActiveMenuEntry Value 0 of
        Inl e \<Rightarrow> Inl e
      | Inr (Some i) \<Rightarrow>
          (case write_target ActiveMenuEntry (word_of_nat i) mem of
             Inl e \<Rightarrow> Inl e
           | Inr mem' \<Rightarrow> Inr (mem', []))
      | Inr None \<Rightarrow>
          (case PersistentName ActiveMenuEntry of
             None \<Rightarrow> Inl NullDereference
           | Some name \<Rightarrow>
               Inr (mem, [''W: Value '' @ [CHR 0x27] @ Value @ [CHR 0x27] @ '' for option ''
                          @ [CHR 0x27] @ name @ [CHR 0x27] @ '' not valid; ignored''])))"

definition DefaultSaveFunction :: "MenuEntry \<Rightarrow> memory \<Rightarrow> error + string" where
  "DefaultSaveFunction ActiveMenuEntry mem =
     (case read_target ActiveMenuEntry mem of
        Inl e \<Rightarrow> Inl e
      | Inr i \<Rightarrow>
          (case PersistentName ActiveMenuEntry of
             None \<Rightarrow> Inl NullDereference
           | Some name \<Rightarrow>
               if unat i < length (Choices ActiveMenuEntry)
               then Inr (snprintf_256
                           (name @ '' = '' @ Persistent (Choices ActiveMenuEntry ! unat i)
                            @ '' #'' @ Pretty (Choices ActiveMenuEntry ! unat i) @ [CHR 0x0A]))
               else Inl OutOfBounds))"

subsection \<open>Buttons\<close>

definition OpenDinguxButtonText :: "port \<Rightarrow> string list" where
  "OpenDinguxButtonText p =
     [''L'', ''R'', ''D-pad Down'', ''D-pad Up'', ''D-pad Left'', ''D-pad Right'', ''Start'',
      ''Select'', ''B'', ''A'', LEFT_FACE_BUTTON_NAME p, TOP_FACE_BUTTON_NAME p,
      ''Analog Down'', ''Analog Up'', ''Analog Left'', ''Analog Right'']"

definition OpenDinguxButtonSave :: "char list" where
  "OpenDinguxButtonSave = ''LRv^<>SsBAYXdulr''"

definition GetButtonText :: "port \<Rightarrow> u32 \<Rightarrow> string \<times> bool" where
  "GetButtonText p Button =
     (if Button = 0 then (''None'', True)
      else (case first_index (\<lambda>i. Button = push_bit i 1) 0 OPENDINGUX_BUTTON_COUNT of
              Some i \<Rightarrow> (OpenDinguxButtonText p ! i, True)
            | None \<Rightarrow> (''Invalid'', False)))"

definition GetButtonsText :: "port \<Rightarrow> u32 \<Rightarrow> string" where
  "GetButtonsText p Buttons =
     (if Buttons = 0 then ''None''
      else fst (fold (\<lambda>i (Result, AfterFirst).
                        if Buttons AND push_bit i 1 \<noteq> 0
                        then ((if AfterFirst then Result @ ''+'' else Result)
                              @ OpenDinguxButtonText p ! i, True)
                        else (Result, AfterFirst))
                     [0..<OPENDINGUX_BUTTON_COUNT] ([], False)))"

text \<open>\<open>Value[0]\<close> of a C string: the terminator when the string is empty.\<close>

definition first_char :: "string \<Rightarrow> char" where
  "first_char Value = (case Value of [] \<Rightarrow> NUL | c # _ \<Rightarrow> c)"

definition LoadMappingFunction :: "MenuEntry \<Rightarrow> string \<Rightarrow> memory \<Rightarrow> error + memory" where
  "LoadMappingFunction ActiveMenuEntry Value mem =
     (let Mapping =
            (if first_char Value \<noteq> CHR ''x''
             then (case first_index (\<lambda>i. first_char Value = OpenDinguxButtonSave ! i)
                                    0 OPENDINGUX_BUTTON_COUNT of
                     Some i \<Rightarrow> push_bit i 1
                   | None \<Rightarrow> 0)
             else 0)
      in write_target ActiveMenuEntry Mapping mem)"

text \<open>
  \<open>SaveMappingFunction\<close> builds \<open>Temp\<close>, a buffer of 32 characters, then the line. The
  button names of gui.c fit \<open>Temp\<close>; those of the port are assumed to.
\<close>

definition SaveMappingFunction :: "port \<Rightarrow> MenuEntry \<Rightarrow> memory \<Rightarrow> error + string" where
  "SaveMappingFunction p ActiveMenuEntry mem =
     (case read_target ActiveMenuEntry mem of
        Inl e \<Rightarrow> Inl e
      | Inr v \<Rightarrow>
          (case PersistentName ActiveMenuEntry of
             None \<Rightarrow> Inl NullDereference
           | Some name \<Rightarrow>
               (let Temp = (case first_index (\<lambda>i. v = push_bit i 1) 0 OPENDINGUX_BUTTON_COUNT of
                              Some i \<Rightarrow> OpenDinguxButtonSave ! i # '' #'' @ OpenDinguxButtonText p ! i
                            | None \<Rightarrow> ''x #None'')
                in Inr (snprintf_256 (name @ '' = '' @ Temp @ [CHR 0x0A])))))"

text \<open>
  Every character of the token is looked up in the table; one that is not there is
  passed over.
\<close>

fun LoadHotkey_scan :: "string \<Rightarrow> u32 \<Rightarrow> u32" where
  "LoadHotkey_scan [] Hotkey = Hotkey"
| "LoadHotkey_scan (c # Ptr) Hotkey =
     LoadHotkey_scan Ptr
       (case first_index (\<lambda>i. c = OpenDinguxButtonSave ! i) 0 OPENDINGUX_BUTTON_COUNT of
          Some i \<Rightarrow> Hotkey OR push_bit i 1
        | None \<Rightarrow> Hotkey)"

definition LoadHotkeyFunction :: "MenuEntry \<Rightarrow> string \<Rightarrow> memory \<Rightarrow> error + memory" where
  "LoadHotkeyFunction ActiveMenuEntry Value mem =
     (let Hotkey = (if first_char Value \<noteq> CHR ''x'' then LoadHotkey_scan Value 0 else 0)
      in write_target ActiveMenuEntry Hotkey mem)"

definition hotkey_codes :: "u32 \<Rightarrow> string" where
  "hotkey_codes v =
     fold (\<lambda>i Temp. if v AND push_bit i 1 \<noteq> 0 then Temp @ [OpenDinguxButtonSave ! i] else Temp)
          [0..<OPENDINGUX_BUTTON_COUNT] []"

definition SaveHotkeyFunction :: "port \<Rightarrow> MenuEntry \<Rightarrow> memory \<Rightarrow> error + string" where
  "SaveHotkeyFunction p ActiveMenuEntry mem =
     (case read_target ActiveMenuEntry mem of
        Inl e \<Rightarrow> Inl e
      | Inr v \<Rightarrow>
          (case PersistentName ActiveMenuEntry of
             None \<Rightarrow> Inl NullDereference
           | Some name \<Rightarrow>
               (let Temp = (if hotkey_codes v = [] then ''x #None''
                            else hotkey_codes v @ '' #'' @ GetButtonsText p v)
                in Inr (snprintf_256 (name @ '' = '' @ Temp @ [CHR 0x0A])))))"

section \<open>Reading the settings file\<close>

text \<open>
  \<open>char line[257]\<close> is a list of characters and \<open>cur\<close>, \<open>opt\<close> and \<open>arg\<close> are offsets
  into it (\<open>None\<close> for \<open>NULL\<close>). The file still to be read is a list of characters.
  \<open>fgets(line, 256, fd)\<close> takes from it a line of at most 255 characters, up to and
  with its newline, stores it with a terminator and leaves the rest of the array as it
  was; at the end of the file it returns \<open>NULL\<close>. The tokenizer has set \<open>line[256]\<close> to NUL, so no read of a terminated line goes beyond the
  array; \<open>peek\<close> gives NUL there.
\<close>

fun read_line :: "nat \<Rightarrow> string \<Rightarrow> string" where
  "read_line 0 input = []"
| "read_line (Suc n) [] = []"
| "read_line (Suc n) (c # input) = (if c = CHR 0x0A then [c] else c # read_line n input)"

definition fgets :: "char list \<Rightarrow> string \<Rightarrow> (char list \<times> string) option" where
  "fgets line input =
     (if input = [] then None
      else let s = read_line 255 input
           in Some (s @ NUL # drop (length s + 1) line, drop (length s) input))"

definition peek :: "char list \<Rightarrow> nat \<Rightarrow> char" where
  "peek line cur = (if cur < length line then line ! cur else NUL)"

definition is_blank :: "char \<Rightarrow> bool" where
  "is_blank c \<longleftrightarrow> c = CHR '' '' \<or> c = CHR 0x09"

definition is_space :: "char \<Rightarrow> bool" where
  "is_space c \<longleftrightarrow> c = CHR '' '' \<or> c = CHR 0x09 \<or> c = CHR 0x0A \<or> c = CHR 0x0D"

text \<open>\<open>while (*cur == ' ' || *cur == '\t') cur++;\<close>\<close>

function skip_blanks :: "char list \<Rightarrow> nat \<Rightarrow> nat" where
  "skip_blanks line cur =
     (if cur < length line \<and> is_blank (line ! cur) then skip_blanks line (cur + 1) else cur)"
  by pat_completeness auto
termination
  by (relation "measure (\<lambda>(line, cur). length line - cur)") auto

declare skip_blanks.simps [simp del]

text \<open>
  The search for the end of the option name. At a \<open>#\<close> the body is \<open>continue\<close>, which
  goes back to the test with \<open>cur\<close> where it was. The search may not return, so it is a
  partial function: \<open>None\<close> is "never returns".
\<close>

partial_function (option) find_name_end ::
  "char list \<Rightarrow> nat \<Rightarrow> nat option \<Rightarrow> (nat \<times> nat option) option" where
  "find_name_end line cur opt =
     (if peek line cur \<noteq> NUL \<and> \<not> (is_blank (peek line cur) \<or> peek line cur = CHR ''='') then
        (if peek line cur = CHR ''#'' then find_name_end line cur opt
         else find_name_end line (cur + 1) (if opt = None then Some cur else opt))
      else Some (cur, opt))"

declare find_name_end.simps [code]

text \<open>
  The search for the end of the argument: \<open>#\<close> is overwritten by NUL and ends the
  search.
\<close>

function find_arg_end :: "char list \<Rightarrow> nat \<Rightarrow> nat option \<Rightarrow> char list \<times> nat \<times> nat option" where
  "find_arg_end line cur arg =
     (if cur < length line \<and> line ! cur \<noteq> NUL then
        (if line ! cur = CHR ''#'' then (line[cur := NUL], cur, arg)
         else find_arg_end line (cur + 1) (if arg = None then Some cur else arg))
      else (line, cur, arg))"
  by pat_completeness auto
termination
  by (relation "measure (\<lambda>(line, cur, arg). length line - cur)") auto

declare find_arg_end.simps [simp del]

text \<open>
  Trailing white space is overwritten from the right. The walk stops at the latest at
  the NUL that ended the option name, so \<open>cur\<close> never leaves the array on the left.
\<close>

function trim_back :: "char list \<Rightarrow> nat \<Rightarrow> char list" where
  "trim_back line cur =
     (if is_space (peek line cur) \<and> 0 < cur then trim_back (line[cur := NUL]) (cur - 1)
      else line)"
  by pat_completeness auto
termination
  by (relation "measure (\<lambda>(line, cur). cur)") auto

declare trim_back.simps [simp del]

text \<open>
  One pass of the body up to the lookup: the array as the tokenizer leaves it, and
  \<open>opt\<close> and \<open>arg\<close> unless the pass ended with \<open>continue\<close>.
\<close>

definition after_name :: "char list \<Rightarrow> nat \<Rightarrow> nat \<Rightarrow> char list \<times> (nat \<times> nat) option" where
  "after_name line0 cur0 opt =
     (let WasEquals = (peek line0 cur0 = CHR ''='');
          line = line0[cur0 := NUL];
          cur = cur0 + 1
      in case (if \<not> WasEquals
               then (let cur1 = skip_blanks line cur
                     in if peek line cur1 \<noteq> CHR ''='' then None else Some (cur1 + 1))
               else Some cur) of
           None \<Rightarrow> (line, None)
         | Some cur2 \<Rightarrow>
             (case find_arg_end line (skip_blanks line cur2) None of
                (line', cur3, None) \<Rightarrow> (line', None)
              | (line', cur3, Some arg) \<Rightarrow> (trim_back line' (cur3 - 1), Some (opt, arg))))"

definition tokenize :: "char list \<Rightarrow> (char list \<times> (nat \<times> nat) option) option" where
  "tokenize line0 =
     (let line = line0[256 := NUL]
      in case find_name_end line (skip_blanks line 0) None of
           None \<Rightarrow> None
         | Some (cur, None) \<Rightarrow> Some (line, None)
         | Some (cur, Some opt) \<Rightarrow> Some (after_name line cur opt))"

section \<open>The persistence driver\<close>

text \<open>
  \<open>Menu_SaveOption\<close>: the entry's save function, or the default one, writes the line;
  what goes to the file is the string in the buffer.
\<close>

definition Menu_SaveOption :: "port \<Rightarrow> MenuEntry \<Rightarrow> memory \<Rightarrow> error + string" where
  "Menu_SaveOption p entry mem =
     (case SaveFunction entry of
        None \<Rightarrow> DefaultSaveFunction entry mem
      | Some Fn_SaveMappingFunction \<Rightarrow> SaveMappingFunction p entry mem
      | Some Fn_SaveHotkeyFunction \<Rightarrow> SaveHotkeyFunction p entry mem
      | Some _ \<Rightarrow> Inl BadTarget)"

text \<open>
  The call \<open>(*LoadFunction)(entry, arg)\<close> of \<open>ReGBA_LoadSettings\<close>, for an entry that is
  not null: the memory after it and the warnings it traced.
\<close>

definition call_LoadFunction ::
  "MenuEntry \<Rightarrow> string \<Rightarrow> memory \<Rightarrow> error + memory \<times> string list" where
  "call_LoadFunction entry arg mem =
     (case LoadFunction entry of
        None \<Rightarrow> DefaultLoadFunction entry arg mem
      | Some Fn_LoadMappingFunction \<Rightarrow>
          (case LoadMappingFunction entry arg mem of Inl e \<Rightarrow> Inl e | Inr mem' \<Rightarrow> Inr (mem', []))
      | Some Fn_LoadHotkeyFunction \<Rightarrow>
          (case LoadHotkeyFunction entry arg mem of Inl e \<Rightarrow> Inl e | Inr mem' \<Rightarrow> Inr (mem', []))
      | Some _ \<Rightarrow> Inl BadTarget)"

text \<open>
  \<open>Menu_FindByPersistentName\<close>, from entry \<open>i\<close> of the menu on. The table of menus is a
  parameter; gui.c has the table \<open>menu p\<close>. Reading \<open>Entries[i]\<close> past the initialised
  pointers has no defined value. The function calls itself on submenus, so it is a
  partial function: \<open>None\<close> is "never returns".
\<close>

partial_function (option) Menu_FindByPersistentName_from ::
  "(menu_id \<Rightarrow> Menu) \<Rightarrow> menu_id \<Rightarrow> nat \<Rightarrow> string \<Rightarrow> (error + MenuEntry option) option" where
  "Menu_FindByPersistentName_from M m i name =
     (if i < length (Entries (M m)) then
        (case Entries (M m) ! i of
           None \<Rightarrow> Some (Inr None)
         | Some cur \<Rightarrow>
             (case Kind cur of
                KIND_SUBMENU \<Rightarrow>
                  (case Target cur of
                     MenuTarget sub \<Rightarrow>
                       Option.bind (Menu_FindByPersistentName_from M sub 0 name)
                         (\<lambda>retcode. case retcode of
                            Inl e \<Rightarrow> Some (Inl e)
                          | Inr (Some found) \<Rightarrow> Some (Inr (Some found))
                          | Inr None \<Rightarrow> Menu_FindByPersistentName_from M m (i + 1) name)
                   | _ \<Rightarrow> Some (Inl BadTarget))
              | KIND_OPTION \<Rightarrow>
                  (case PersistentName cur of
                     None \<Rightarrow> Some (Inl NullDereference)
                   | Some pname \<Rightarrow>
                       if strcasecmp_is_0 pname name then Some (Inr (Some cur))
                       else Menu_FindByPersistentName_from M m (i + 1) name)
              | _ \<Rightarrow> Menu_FindByPersistentName_from M m (i + 1) name))
      else Some (Inl OutOfBounds))"

declare Menu_FindByPersistentName_from.simps [code]

definition Menu_FindByPersistentName ::
  "(menu_id \<Rightarrow> Menu) \<Rightarrow> menu_id \<Rightarrow> string \<Rightarrow> (error + MenuEntry option) option" where
  "Menu_FindByPersistentName M m name = Menu_FindByPersistentName_from M m 0 name"

text \<open>\<open>FixUpSettings\<close>; \<open>memcpy\<close> copies as many words as \<open>DefaultKeypadRemapping\<close> has.\<close>

definition memcpy_KeypadRemapping :: "u32 list \<Rightarrow> memory \<Rightarrow> memory" where
  "memcpy_KeypadRemapping src mem =
     (\<lambda>a. case a of
            Addr_KeypadRemapping i \<Rightarrow> if i < length src then src ! i else mem a
          | _ \<Rightarrow> mem a)"

definition FixUpSettings :: "port \<Rightarrow> memory \<Rightarrow> memory" where
  "FixUpSettings p mem =
     (if mem (Addr_KeypadRemapping 0) = 0 \<or> mem (Addr_KeypadRemapping 1) = 0
         \<or> mem (Addr_KeypadRemapping 2) = 0 \<or> mem (Addr_KeypadRemapping 3) = 0
         \<or> mem (Addr_KeypadRemapping 4) = 0 \<or> mem (Addr_KeypadRemapping 5) = 0
         \<or> mem (Addr_KeypadRemapping 6) = 0 \<or> mem (Addr_KeypadRemapping 7) = 0
         \<or> mem (Addr_KeypadRemapping 8) = 0 \<or> mem (Addr_KeypadRemapping 9) = 0
         \<or> mem (Addr_KeypadRemapping 12) = 0
      then memcpy_KeypadRemapping (DefaultKeypadRemapping p) mem
      else mem)"

text \<open>
  The state of a load: the memory of the settings, the array \<open>line\<close>, which keeps its
  content from one \<open>fgets\<close> to the next, and the messages given to \<open>ReGBA_Trace\<close>.
\<close>

record load_state =
  settings :: memory
  buffer :: "char list"
  traced :: "string list"

text \<open>
  The body of the \<open>while\<close> statement for the line that \<open>fgets\<close> has just stored. A null
  \<open>entry\<close> is traced and then dereferenced by \<open>entry->LoadFunction\<close>. \<open>Inl\<close> carries the
  error with the state at that moment; \<open>None\<close> is "never returns".
\<close>

definition load_line ::
  "(menu_id \<Rightarrow> Menu) \<Rightarrow> load_state \<Rightarrow> (error \<times> load_state + load_state) option" where
  "load_line M st =
     (case tokenize (buffer st) of
        None \<Rightarrow> None
      | Some (line', None) \<Rightarrow> Some (Inr (st\<lparr>buffer := line'\<rparr>))
      | Some (line', Some (opt, arg)) \<Rightarrow>
          (let st1 = st\<lparr>buffer := line'\<rparr>
           in Option.bind (Menu_FindByPersistentName M MainMenu (c_str line' opt))
                (\<lambda>found. case found of
                   Inl e \<Rightarrow> Some (Inl (e, st1))
                 | Inr None \<Rightarrow>
                     Some (Inl (NullDereference,
                                st1\<lparr>traced := traced st1
                                       @ [''W: Option '' @ [CHR 0x27] @ c_str line' opt
                                          @ [CHR 0x27] @ '' not found; ignored'']\<rparr>))
                 | Inr (Some entry) \<Rightarrow>
                     (case call_LoadFunction entry (c_str line' arg) (settings st1) of
                        Inl e \<Rightarrow> Some (Inl (e, st1))
                      | Inr (mem', warnings) \<Rightarrow>
                          Some (Inr (st1\<lparr>settings := mem', traced := traced st1 @ warnings\<rparr>))))))"

lemma read_line_length: "input \<noteq> [] \<Longrightarrow> 0 < n \<Longrightarrow> 0 < length (read_line n input)"
  by (cases n; cases input) auto

function load_lines ::
  "(menu_id \<Rightarrow> Menu) \<Rightarrow> load_state \<Rightarrow> string \<Rightarrow> (error \<times> load_state + load_state) option" where
  "load_lines M st input =
     (case fgets (buffer st) input of
        None \<Rightarrow> Some (Inr st)
      | Some (line', input') \<Rightarrow>
          (case load_line M (st\<lparr>buffer := line'\<rparr>) of
             None \<Rightarrow> None
           | Some (Inl crash) \<Rightarrow> Some (Inl crash)
           | Some (Inr st') \<Rightarrow> load_lines M st' input'))"
  by pat_completeness auto
termination
proof (relation "measure (\<lambda>(M, st, input). length input)")
  show "wf (measure (\<lambda>(M, st, input). length input))" by simp
next
  fix M :: "menu_id \<Rightarrow> Menu" and st :: load_state and input x2 x y x2a b
  assume "fgets (buffer st) input = Some x2" "(x, y) = x2"
  then have "input \<noteq> []" and "y = drop (length (read_line 255 input)) input"
    by (auto simp: fgets_def Let_def split: if_splits)
  moreover from this read_line_length [of input 255] have "0 < length (read_line 255 input)" by simp
  ultimately show "((M, b, y), (M, st, input)) \<in> measure (\<lambda>(M, st, input). length input)"
    by (cases input) auto
qed

declare load_lines.simps [simp del]

text \<open>
  \<open>ReGBA_LoadSettings\<close>. The files that can be opened for reading are a map from names
  to contents; \<open>line0\<close> is what the array \<open>line\<close> holds before the first \<open>fgets\<close>.
  \<open>main_path\<close> and \<open>MAX_PATH\<close> come from outside gui.c.
\<close>

definition ReGBA_LoadSettings ::
  "port \<Rightarrow> (menu_id \<Rightarrow> Menu) \<Rightarrow> string \<Rightarrow> nat \<Rightarrow> (string \<Rightarrow> string option) \<Rightarrow> string
   \<Rightarrow> char list \<Rightarrow> memory \<Rightarrow> (error \<times> load_state + load_state) option" where
  "ReGBA_LoadSettings p M main_path MAX_PATH files cfg_name line0 mem0 =
     (let st = \<lparr>settings = mem0, buffer = line0, traced = []\<rparr>
      in if length main_path + length cfg_name + 5 > MAX_PATH
         then Some (Inr (st\<lparr>traced := [''E: Somehow you hit the filename size limit :o''
                                         @ [CHR 0x0A]]\<rparr>))
         else (let fname = main_path @ ''/'' @ cfg_name @ ''.cfg''
               in case files fname of
                    Some input \<Rightarrow>
                      (case load_lines M st input of
                         None \<Rightarrow> None
                       | Some (Inl crash) \<Rightarrow> Some (Inl crash)
                       | Some (Inr st') \<Rightarrow>
                           Some (Inr (st'\<lparr>settings := FixUpSettings p (settings st')\<rparr>)))
                  | None \<Rightarrow>
                      Some (Inr (st\<lparr>settings := FixUpSettings p mem0,
                                     traced := [''W: Couldn'' @ [CHR 0x27] @ ''t open file ''
                                                @ fname @ '' for loading.'' @ [CHR 0x0A]]\<rparr>))))"


section \<open>An instance of the parameters\<close>

text \<open>
  For evaluating the model on concrete inputs: the values of a GCW Zero build without
  performance statistics, and the table of menus in which the array of \<open>DisplayMenu\<close>
  ends with the null pointer that the other menus have.
\<close>

abbreviation example_port :: port where
  "example_port \<equiv>
     \<lparr>GCW_ZERO = True, PERFORMANCE_IMPACTING_STATISTICS = False,
      LEFT_FACE_BUTTON_NAME = ''Y'', TOP_FACE_BUTTON_NAME = ''X'',
      DefaultKeypadRemapping =
        [0x200, 0x100, 0x80, 0x40, 0x20, 0x10, 0x08, 0x04, 0x02, 0x01, 0, 0, 0x800],
      OPENDINGUX_BUTTON_FACE_DOWN = 0x100\<rparr>"

abbreviation terminated_menu :: "port \<Rightarrow> menu_id \<Rightarrow> Menu" where
  "terminated_menu p \<equiv>
     (menu p)(DisplayMenu := (menu p DisplayMenu)\<lparr>Entries := Entries (menu p DisplayMenu) @ [None]\<rparr>)"



section \<open>Option cycling\<close>

lemma DefaultRightFunction_eq:
  assumes "Kind e = KIND_OPTION" "Target e = GlobalTarget a"
  shows "DefaultRightFunction e mem =
         mem(a := (if mem a + 1 \<ge> ChoiceCount e then 0 else mem a + 1))"
  using assms by (auto simp: DefaultRightFunction_def Let_def fun_eq_iff)

lemma DefaultLeftFunction_eq:
  assumes "Kind e = KIND_OPTION" "Target e = GlobalTarget a"
  shows "DefaultLeftFunction e mem =
         mem(a := (if mem a = 0 then ChoiceCount e else mem a) - 1)"
  using assms by (auto simp: DefaultLeftFunction_def Let_def fun_eq_iff)

lemma right_value_unat:
  fixes v C :: u32
  assumes "v < C"
  shows "unat (if v + 1 \<ge> C then 0 else v + 1) = (unat v + 1) mod unat C"
proof -
  from assms have lt: "unat v < unat C" by (simp add: word_less_nat_alt)
  have "unat C < 2 ^ 32" using unsigned_less [of C] by simp
  with lt have "unat v + 1 < 2 ^ 32" by simp
  then have u: "unat (v + 1) = unat v + 1"
    by (simp add: unat_word_ariths)
  show ?thesis
  proof (cases "v + 1 \<ge> C")
    case True
    then have "unat C \<le> unat v + 1" using u by (simp add: word_le_nat_alt)
    with lt have "unat v + 1 = unat C" by simp
    with True show ?thesis by simp
  next
    case False
    then have "unat v + 1 < unat C" using u by (simp add: word_le_nat_alt)
    with False u show ?thesis by simp
  qed
qed

lemma left_value_unat:
  fixes v C :: u32
  assumes "v < C"
  shows "unat ((if v = 0 then C else v) - 1) = (unat v + (unat C - 1)) mod unat C"
proof -
  from assms have lt: "unat v < unat C" by (simp add: word_less_nat_alt)
  show ?thesis
  proof (cases "v = 0")
    case True
    from lt have "C \<noteq> 0" by auto
    then have "unat (C - 1) = unat C - 1" by (simp add: unat_minus_one)
    with True lt show ?thesis by simp
  next
    case False
    then have "unat (v - 1) = unat v - 1" by (simp add: unat_minus_one)
    moreover from False have "unat v \<noteq> 0" by (simp add: unat_eq_0)
    then have "(unat v + (unat C - 1)) mod unat C = unat v - 1"
      using lt by (simp add: mod_if)
    ultimately show ?thesis using False by simp
  qed
qed

lemma DefaultRightFunction_step:
  assumes e: "Kind e = KIND_OPTION" "Target e = GlobalTarget a"
      and v: "mem a < ChoiceCount e"
  shows "unat (DefaultRightFunction e mem a) = (unat (mem a) + 1) mod unat (ChoiceCount e)"
    and "DefaultRightFunction e mem a < ChoiceCount e"
    and "b \<noteq> a \<Longrightarrow> DefaultRightFunction e mem b = mem b"
proof -
  show u: "unat (DefaultRightFunction e mem a) = (unat (mem a) + 1) mod unat (ChoiceCount e)"
    using right_value_unat [OF v] by (simp add: DefaultRightFunction_eq [OF e])
  from v have "0 < unat (ChoiceCount e)" by (simp add: word_less_nat_alt)
  then have "(unat (mem a) + 1) mod unat (ChoiceCount e) < unat (ChoiceCount e)"
    by simp
  with u show "DefaultRightFunction e mem a < ChoiceCount e"
    by (simp only: word_less_nat_alt)
  show "b \<noteq> a \<Longrightarrow> DefaultRightFunction e mem b = mem b"
    by (simp add: DefaultRightFunction_eq [OF e])
qed

lemma DefaultLeftFunction_step:
  assumes e: "Kind e = KIND_OPTION" "Target e = GlobalTarget a"
      and v: "mem a < ChoiceCount e"
  shows "unat (DefaultLeftFunction e mem a)
           = (unat (mem a) + (unat (ChoiceCount e) - 1)) mod unat (ChoiceCount e)"
    and "DefaultLeftFunction e mem a < ChoiceCount e"
    and "b \<noteq> a \<Longrightarrow> DefaultLeftFunction e mem b = mem b"
proof -
  show u: "unat (DefaultLeftFunction e mem a)
           = (unat (mem a) + (unat (ChoiceCount e) - 1)) mod unat (ChoiceCount e)"
    using left_value_unat [OF v] by (simp add: DefaultLeftFunction_eq [OF e])
  from v have "0 < unat (ChoiceCount e)" by (simp add: word_less_nat_alt)
  then have "(unat (mem a) + (unat (ChoiceCount e) - 1)) mod unat (ChoiceCount e)
               < unat (ChoiceCount e)"
    by simp
  with u show "DefaultLeftFunction e mem a < ChoiceCount e"
    by (simp only: word_less_nat_alt)
  show "b \<noteq> a \<Longrightarrow> DefaultLeftFunction e mem b = mem b"
    by (simp add: DefaultLeftFunction_eq [OF e])
qed

lemma DefaultRightFunction_funpow:
  assumes e: "Kind e = KIND_OPTION" "Target e = GlobalTarget a"
      and v: "mem a < ChoiceCount e"
  shows "unat ((DefaultRightFunction e ^^ k) mem a)
           = (unat (mem a) + k) mod unat (ChoiceCount e)
         \<and> (DefaultRightFunction e ^^ k) mem a < ChoiceCount e
         \<and> (\<forall>b. b \<noteq> a \<longrightarrow> (DefaultRightFunction e ^^ k) mem b = mem b)"
proof (induction k)
  case 0
  from v have "unat (mem a) < unat (ChoiceCount e)" by (simp add: word_less_nat_alt)
  with v show ?case by simp
next
  case (Suc k)
  let ?m = "(DefaultRightFunction e ^^ k) mem"
  from Suc.IH have lt: "?m a < ChoiceCount e" by blast
  note st = DefaultRightFunction_step [of e a ?m, OF e lt]
  have "unat (DefaultRightFunction e ?m a)
          = ((unat (mem a) + k) mod unat (ChoiceCount e) + 1) mod unat (ChoiceCount e)"
    using st(1) Suc.IH by simp
  also have "\<dots> = (unat (mem a) + Suc k) mod unat (ChoiceCount e)"
    by (simp add: mod_Suc_eq)
  finally show ?case using st(2) st(3) Suc.IH by simp
qed

lemma DefaultLeftFunction_funpow:
  assumes e: "Kind e = KIND_OPTION" "Target e = GlobalTarget a"
      and v: "mem a < ChoiceCount e"
  shows "(unat ((DefaultLeftFunction e ^^ k) mem a) + k) mod unat (ChoiceCount e)
           = unat (mem a)
         \<and> (DefaultLeftFunction e ^^ k) mem a < ChoiceCount e
         \<and> (\<forall>b. b \<noteq> a \<longrightarrow> (DefaultLeftFunction e ^^ k) mem b = mem b)"
proof (induction k)
  case 0
  from v have "unat (mem a) < unat (ChoiceCount e)" by (simp add: word_less_nat_alt)
  with v show ?case by simp
next
  case (Suc k)
  let ?m = "(DefaultLeftFunction e ^^ k) mem"
  let ?C = "unat (ChoiceCount e)"
  from v have Cpos: "0 < ?C" by (simp add: word_less_nat_alt)
  from Suc.IH have lt: "?m a < ChoiceCount e" by blast
  note st = DefaultLeftFunction_step [of e a ?m, OF e lt]
  have "(unat (DefaultLeftFunction e ?m a) + Suc k) mod ?C
          = ((unat (?m a) + (?C - 1)) mod ?C + Suc k) mod ?C"
    using st(1) by simp
  also have "\<dots> = (unat (?m a) + (?C - 1) + Suc k) mod ?C"
    by (rule mod_add_left_eq)
  also have "unat (?m a) + (?C - 1) + Suc k = (unat (?m a) + k) + ?C"
    using Cpos by simp
  also have "((unat (?m a) + k) + ?C) mod ?C = (unat (?m a) + k) mod ?C"
    by simp
  also have "\<dots> = unat (mem a)" using Suc.IH by blast
  finally show ?case using st(2) st(3) Suc.IH by simp
qed

lemma shift_mod_bij:
  fixes C n :: nat
  assumes "0 < C"
  shows "inj_on (\<lambda>k. (n + k) mod C) {0..<C}"
    and "(\<lambda>k. (n + k) mod C) ` {0..<C} = {0..<C}"
proof -
  show inj: "inj_on (\<lambda>k. (n + k) mod C) {0..<C}"
  proof (rule inj_onI)
    fix x y assume x: "x \<in> {0..<C}" and y: "y \<in> {0..<C}"
      and eq: "(n + x) mod C = (n + y) mod C"
    from x y have xy: "x < C" "y < C" by simp_all
    have dv: "a \<le> b \<Longrightarrow> b < C \<Longrightarrow> (n + a) mod C = (n + b) mod C \<Longrightarrow> a = b" for a b
    proof -
      assume ab: "a \<le> b" and b: "b < C" and m: "(n + a) mod C = (n + b) mod C"
      from ab have "n + a \<le> n + b" by simp
      with m have "C dvd (n + b) - (n + a)"
        by (metis mod_eq_dvd_iff_nat)
      then have "C dvd b - a" by simp
      moreover have "b - a < C" using b by simp
      ultimately have "b - a = 0" by (meson dvd_imp_le not_less zero_less_iff_neq_zero)
      with ab show "a = b" by simp
    qed
    show "x = y"
    proof (cases "x \<le> y")
      case True
      with dv [of x y] xy eq show ?thesis by simp
    next
      case False
      then have "y \<le> x" by simp
      with dv [of y x] xy eq show ?thesis by simp
    qed
  qed
  have sub: "(\<lambda>k. (n + k) mod C) ` {0..<C} \<subseteq> {0..<C}" using assms by auto
  have "card ((\<lambda>k. (n + k) mod C) ` {0..<C}) = card {0..<C}"
    by (rule card_image [OF inj])
  with sub show "(\<lambda>k. (n + k) mod C) ` {0..<C} = {0..<C}"
    by (simp add: card_subset_eq)
qed

lemma orbit_visits_all:
  fixes f :: "nat \<Rightarrow> u32" and C :: u32
  assumes inj: "inj_on f {0..<unat C}"
      and rng: "\<And>k. k < unat C \<Longrightarrow> f k < C"
  shows "distinct (map f [0..<unat C]) \<and> set (map f [0..<unat C]) = {w. w < C}"
proof -
  have d: "distinct (map f [0..<unat C])"
    using inj by (simp add: distinct_map)
  have sub: "(unat \<circ> f) ` {0..<unat C} \<subseteq> {0..<unat C}"
    using rng by (auto simp: word_less_nat_alt)
  have "inj_on (unat \<circ> f) {0..<unat C}"
  proof (rule inj_onI)
    fix x y assume "x \<in> {0..<unat C}" "y \<in> {0..<unat C}" "(unat \<circ> f) x = (unat \<circ> f) y"
    then have "f x = f y" and "x \<in> {0..<unat C}" "y \<in> {0..<unat C}"
      by (simp_all add: word_unat_eq_iff)
    with inj show "x = y" by (rule_tac inj_onD)
  qed
  then have "card ((unat \<circ> f) ` {0..<unat C}) = card {0..<unat C}"
    by (rule card_image)
  with sub have img: "(unat \<circ> f) ` {0..<unat C} = {0..<unat C}"
    by (simp add: card_subset_eq)
  have "f ` {0..<unat C} = {w. w < C}"
  proof (rule set_eqI)
    fix w
    show "w \<in> f ` {0..<unat C} \<longleftrightarrow> w \<in> {w. w < C}"
    proof
      assume "w \<in> f ` {0..<unat C}"
      then show "w \<in> {w. w < C}" using rng by auto
    next
      assume "w \<in> {w. w < C}"
      then have "unat w \<in> {0..<unat C}" by (simp add: word_less_nat_alt)
      with img obtain k where k: "k \<in> {0..<unat C}" and "(unat \<circ> f) k = unat w"
        by (metis (no_types, lifting) imageE)
      then have "f k = w" by (simp add: word_unat_eq_iff)
      with k show "w \<in> f ` {0..<unat C}" by blast
    qed
  qed
  with d show ?thesis by simp
qed

text \<open>
  Claim C8. For an option entry with \<open>C = ChoiceCount\<close> choices whose target holds an
  index below \<open>C\<close>: \<open>C\<close> applications of \<open>DefaultRightFunction\<close> give back the memory
  they started from, and so do \<open>C\<close> applications of \<open>DefaultLeftFunction\<close>; one step
  moves the index to its successor, respectively predecessor, modulo \<open>C\<close>; and the
  indices met before each of the \<open>C\<close> steps are pairwise different and are exactly the
  indices below \<open>C\<close>.
\<close>

theorem option_cycling:
  assumes e: "Kind e = KIND_OPTION" "Target e = GlobalTarget a"
      and v: "mem a < ChoiceCount e"
  shows "(DefaultRightFunction e ^^ unat (ChoiceCount e)) mem = mem
       \<and> (DefaultLeftFunction e ^^ unat (ChoiceCount e)) mem = mem
       \<and> unat (DefaultRightFunction e mem a) = (unat (mem a) + 1) mod unat (ChoiceCount e)
       \<and> unat (DefaultLeftFunction e mem a)
             = (unat (mem a) + unat (ChoiceCount e) - 1) mod unat (ChoiceCount e)
       \<and> distinct (map (\<lambda>k. (DefaultRightFunction e ^^ k) mem a) [0..<unat (ChoiceCount e)])
       \<and> set (map (\<lambda>k. (DefaultRightFunction e ^^ k) mem a) [0..<unat (ChoiceCount e)])
             = {i. i < ChoiceCount e}
       \<and> distinct (map (\<lambda>k. (DefaultLeftFunction e ^^ k) mem a) [0..<unat (ChoiceCount e)])
       \<and> set (map (\<lambda>k. (DefaultLeftFunction e ^^ k) mem a) [0..<unat (ChoiceCount e)])
             = {i. i < ChoiceCount e}"
proof -
  let ?C = "unat (ChoiceCount e)"
  let ?R = "\<lambda>k. (DefaultRightFunction e ^^ k) mem"
  let ?L = "\<lambda>k. (DefaultLeftFunction e ^^ k) mem"
  from v have vC: "unat (mem a) < ?C" and Cpos: "0 < ?C"
    by (simp_all add: word_less_nat_alt)
  have R: "unat ((DefaultRightFunction e ^^ k) mem a) = (unat (mem a) + k) mod ?C
         \<and> (DefaultRightFunction e ^^ k) mem a < ChoiceCount e
         \<and> (\<forall>b. b \<noteq> a \<longrightarrow> (DefaultRightFunction e ^^ k) mem b = mem b)" for k
    by (rule DefaultRightFunction_funpow [of e a mem, OF e v])
  have L: "(unat ((DefaultLeftFunction e ^^ k) mem a) + k) mod ?C = unat (mem a)
         \<and> (DefaultLeftFunction e ^^ k) mem a < ChoiceCount e
         \<and> (\<forall>b. b \<noteq> a \<longrightarrow> (DefaultLeftFunction e ^^ k) mem b = mem b)" for k
    by (rule DefaultLeftFunction_funpow [of e a mem, OF e v])
  have "unat (?R ?C a) = unat (mem a)" using R [of ?C] vC by simp
  then have Ra: "?R ?C a = mem a" by (simp add: word_unat_eq_iff)
  have Rb: "\<And>b. b \<noteq> a \<Longrightarrow> ?R ?C b = mem b" using R [of ?C] by blast
  have c1: "?R ?C = mem"
  proof (rule ext)
    fix b show "?R ?C b = mem b"
      using Ra Rb [of b] by (cases "b = a") blast+
  qed
  have Ll: "unat (?L ?C a) < ?C" using L [of ?C] by (simp add: word_less_nat_alt)
  have "(unat (?L ?C a) + ?C) mod ?C = unat (mem a)" using L [of ?C] by blast
  with Ll have "unat (?L ?C a) = unat (mem a)" by simp
  then have La: "?L ?C a = mem a" by (simp add: word_unat_eq_iff)
  have Lb: "\<And>b. b \<noteq> a \<Longrightarrow> ?L ?C b = mem b" using L [of ?C] by blast
  have c2: "?L ?C = mem"
  proof (rule ext)
    fix b show "?L ?C b = mem b"
      using La Lb [of b] by (cases "b = a") blast+
  qed
  have c3: "unat (DefaultRightFunction e mem a) = (unat (mem a) + 1) mod ?C"
    by (rule DefaultRightFunction_step(1) [of e a mem, OF e v])
  have "unat (DefaultLeftFunction e mem a) = (unat (mem a) + (?C - 1)) mod ?C"
    by (rule DefaultLeftFunction_step(1) [of e a mem, OF e v])
  with Cpos have c4: "unat (DefaultLeftFunction e mem a) = (unat (mem a) + ?C - 1) mod ?C"
    by simp
  have injR: "inj_on (\<lambda>k. ?R k a) {0..<?C}"
  proof (rule inj_onI)
    fix x y assume x: "x \<in> {0..<?C}" and y: "y \<in> {0..<?C}" and eq: "?R x a = ?R y a"
    from eq have "unat (?R x a) = unat (?R y a)" by simp
    then have "(unat (mem a) + x) mod ?C = (unat (mem a) + y) mod ?C"
      using R [of x] R [of y] by simp
    then show "x = y"
      by (rule inj_onD [OF shift_mod_bij(1) [OF Cpos, of "unat (mem a)"], OF _ x y])
  qed
  have injL: "inj_on (\<lambda>k. ?L k a) {0..<?C}"
  proof (rule inj_onI)
    fix x y assume x: "x \<in> {0..<?C}" and y: "y \<in> {0..<?C}" and eq: "?L x a = ?L y a"
    have "(unat (?L x a) + x) mod ?C = unat (mem a)" using L [of x] by blast
    moreover have "(unat (?L y a) + y) mod ?C = unat (mem a)" using L [of y] by blast
    ultimately have "(unat (?L x a) + x) mod ?C = (unat (?L x a) + y) mod ?C"
      using eq by simp
    then show "x = y"
      by (rule inj_onD [OF shift_mod_bij(1) [OF Cpos, of "unat (?L x a)"], OF _ x y])
  qed
  have c56: "distinct (map (\<lambda>k. ?R k a) [0..<?C])
             \<and> set (map (\<lambda>k. ?R k a) [0..<?C]) = {i. i < ChoiceCount e}"
    by (rule orbit_visits_all [OF injR]) (use R in blast)
  have c78: "distinct (map (\<lambda>k. ?L k a) [0..<?C])
             \<and> set (map (\<lambda>k. ?L k a) [0..<?C]) = {i. i < ChoiceCount e}"
    by (rule orbit_visits_all [OF injL]) (use L in blast)
  from c1 c2 c3 c4 c56 c78 show ?thesis by blast
qed

theorem option_cycling_witness:
  "Kind DisplayMenu_ScaleMode = KIND_OPTION
   \<and> Target DisplayMenu_ScaleMode = GlobalTarget Addr_ScaleMode
   \<and> ((\<lambda>_. 0)(Addr_ScaleMode := 2)) Addr_ScaleMode < ChoiceCount DisplayMenu_ScaleMode
   \<and> (DefaultRightFunction DisplayMenu_ScaleMode ^^ 3) ((\<lambda>_. 0)(Addr_ScaleMode := 2))
         = (\<lambda>_. 0)(Addr_ScaleMode := 2)
   \<and> (DefaultLeftFunction DisplayMenu_ScaleMode ^^ 3) ((\<lambda>_. 0)(Addr_ScaleMode := 2))
         = (\<lambda>_. 0)(Addr_ScaleMode := 2)
   \<and> DefaultRightFunction DisplayMenu_ScaleMode ((\<lambda>_. 0)(Addr_ScaleMode := 2)) Addr_ScaleMode = 0
   \<and> DefaultLeftFunction DisplayMenu_ScaleMode ((\<lambda>_. 0)(Addr_ScaleMode := 2)) Addr_ScaleMode = 1"
proof -
  have e: "Kind DisplayMenu_ScaleMode = KIND_OPTION"
          "Target DisplayMenu_ScaleMode = GlobalTarget Addr_ScaleMode"
          "ChoiceCount DisplayMenu_ScaleMode = 3"
    by (simp_all add: DisplayMenu_ScaleMode_def zero_entry_def)
  have v: "((\<lambda>_. 0)(Addr_ScaleMode := 2 :: u32)) Addr_ScaleMode < ChoiceCount DisplayMenu_ScaleMode"
    by (simp add: e)
  have r: "DefaultRightFunction DisplayMenu_ScaleMode ((\<lambda>_. 0)(Addr_ScaleMode := 2)) Addr_ScaleMode = 0"
    by (simp add: DefaultRightFunction_def e)
  have l: "DefaultLeftFunction DisplayMenu_ScaleMode ((\<lambda>_. 0)(Addr_ScaleMode := 2)) Addr_ScaleMode = 1"
    by (simp add: DefaultLeftFunction_def e)
  from option_cycling [of DisplayMenu_ScaleMode Addr_ScaleMode "(\<lambda>_. 0)(Addr_ScaleMode := 2)",
                       OF e(1) e(2) v] e v r l
  show ?thesis by simp
qed


section \<open>Decimal printing is correct\<close>

lemma sint_u64: "sint (w::u64) = uint w - 2 ^ 64 * of_bool (sint w < 0)"
proof -
  have "take_bit 64 (uint w) = uint w"
    using unsigned_less [of w, where 'a = int] by (simp add: take_bit_int_eq_self)
  then show ?thesis
    using bit_last_iff [of w]
    by (simp add: sint_uint signed_take_bit_eq_take_bit_minus bit_unsigned_iff)
qed

lemma uint_neg_u64: "v \<noteq> 0 \<Longrightarrow> uint (- (v::u64)) = 2 ^ 64 - uint v"
proof -
  assume "v \<noteq> 0"
  then have "0 < uint v" by (simp add: word_greater_zero_iff [symmetric] word_less_def)
  moreover have "uint v < 2 ^ 64" using unsigned_less [of v, where 'a = int] by simp
  moreover have "uint (- v) = (- uint v) mod 2 ^ 64" by (simp add: uint_word_ariths)
  ultimately show ?thesis
    by (simp add: zmod_zminus1_eq_if)
qed

lemma sint_nonneg_unat: "0 \<le> sint (v::u64) \<Longrightarrow> unat v = nat (sint v)"
  using sint_u64 [of v] by simp

lemma sint_neg_unat: "sint (v::u64) < 0 \<Longrightarrow> unat (- v) = nat (- sint v)"
proof -
  assume n: "sint v < 0"
  then have "v \<noteq> 0" by auto
  then have "uint (- v) = 2 ^ 64 - uint v" by (rule uint_neg_u64)
  moreover have "sint v = uint v - 2 ^ 64" using sint_u64 [of v] n by simp
  ultimately have "uint (- v) = - sint v" by simp
  then show ?thesis by (metis unat_eq_nat_uint)
qed

lemma digit_table:
  "\<forall>k \<in> set [0..<10]. char_of (of_char CHR ''0'' + k :: nat) = decimal_digit k
                          \<and> decimal_digit k \<noteq> NUL"
  by code_simp

lemma digit_char_decimal: "unat d < 10 \<Longrightarrow> digit_char d = decimal_digit (unat d)"
  using digit_table by (simp add: digit_char_def)

lemma decimal_digit_not_NUL: "d < 10 \<Longrightarrow> decimal_digit d \<noteq> NUL"
  using digit_table by simp

declare decimal_nat.simps [simp del] digits_of.simps [simp del]
  count_digits.simps [simp del] write_digits.simps [simp del]

lemma digits_of_0 [simp]: "digits_of 0 = []"
  by (simp add: digits_of.simps)

lemma digits_of_pos:
  "0 < n \<Longrightarrow> digits_of n = digits_of (n div 10) @ [decimal_digit (n mod 10)]"
  by (subst digits_of.simps) simp

lemma decimal_nat_digits_of: "0 < n \<Longrightarrow> decimal_nat n = digits_of n"
proof (induction n rule: decimal_nat.induct)
  case (1 n)
  show ?case
  proof (cases "n < 10")
    case True
    with "1.prems" show ?thesis
      by (simp add: decimal_nat.simps [of n] digits_of_pos)
  next
    case False
    then have "0 < n div 10" by simp
    with False "1.IH" "1.prems" show ?thesis
      by (simp add: decimal_nat.simps [of n] digits_of_pos [of n])
  qed
qed

lemma digits_of_not_NUL: "NUL \<notin> set (digits_of n)"
proof (induction n rule: digits_of.induct)
  case (1 n)
  show ?case
  proof (cases "n = 0")
    case True then show ?thesis by simp
  next
    case False
    with "1.IH" show ?thesis
      using decimal_digit_not_NUL [of "n mod 10"]
      by (simp add: digits_of_pos)
  qed
qed

lemma length_digits_of: "n < 10 ^ k \<Longrightarrow> length (digits_of n) \<le> k"
proof (induction k arbitrary: n)
  case 0
  then show ?case by simp
next
  case (Suc k)
  show ?case
  proof (cases "n = 0")
    case True then show ?thesis by simp
  next
    case False
    from Suc.prems have "n div 10 < 10 ^ k"
      by (simp add: less_mult_imp_div_less mult.commute)
    then have "length (digits_of (n div 10)) \<le> k" by (rule Suc.IH)
    with False show ?thesis by (simp add: digits_of_pos)
  qed
qed

lemma length_digits_of_u64: "length (digits_of (unat (v::u64))) \<le> 20"
proof -
  have "unat v < 2 ^ 64" using unsigned_less [of v] by simp
  also have "(2::nat) ^ 64 < 10 ^ 20" by simp
  finally show ?thesis by (rule length_digits_of)
qed

lemma count_digits_eq: "count_digits Temp Length = Length + length (digits_of (unat Temp))"
proof (induction Temp Length rule: count_digits.induct)
  case (1 Temp Length)
  show ?case
  proof (cases "Temp > 0")
    case True
    then have pos: "0 < unat Temp" by (simp add: word_greater_zero_iff unat_gt_0)
    from True "1.IH" have "count_digits Temp Length
        = Length + 1 + length (digits_of (unat (Temp div 10)))"
      by (simp add: count_digits.simps [of Temp])
    then show ?thesis using pos by (simp add: digits_of_pos unat_div)
  next
    case False
    then have z: "Temp = 0" by (simp add: word_greater_zero_iff)
    have "count_digits Temp Length = Length"
      using False by (subst count_digits.simps) simp
    with z show ?thesis by simp
  qed
qed

lemma drop_update_at: "i < length xs \<Longrightarrow> drop i (xs[i := x]) = x # drop (Suc i) xs"
  by (simp add: upd_conv_take_nth_drop)

lemma write_digits_eq:
  "length (digits_of (unat Value)) \<le> Length \<Longrightarrow> Result + Length \<le> length buf \<Longrightarrow>
   write_digits buf Result Value Length
     = take (Result + Length - length (digits_of (unat Value))) buf
       @ digits_of (unat Value) @ drop (Result + Length) buf"
proof (induction buf Result Value Length rule: write_digits.induct)
  case (1 buf Result Value Length)
  show ?case
  proof (cases "Value > 0")
    case False
    then have z: "Value = 0" by (simp add: word_greater_zero_iff)
    have "write_digits buf Result Value Length = buf"
      using False by (subst write_digits.simps) simp
    with z "1.prems" show ?thesis by simp
  next
    case True
    then have pos: "0 < unat Value" by (simp add: word_greater_zero_iff unat_gt_0)
    let ?ds = "digits_of (unat (Value div 10))"
    let ?d = "decimal_digit (unat Value mod 10)"
    let ?buf = "buf[Result + (Length - 1) := digit_char (Value mod 10)]"
    have ds: "digits_of (unat Value) = ?ds @ [?d]"
      using pos by (simp add: digits_of_pos unat_div)
    have dc: "digit_char (Value mod 10) = ?d"
      using digit_char_decimal [of "Value mod 10"] by (simp add: unat_mod)
    from "1.prems" ds have L: "length ?ds + 1 \<le> Length" by simp
    then have L1: "length ?ds \<le> Length - 1" and Lpos: "0 < Length" by simp_all
    from "1.prems" Lpos have inb: "Result + (Length - 1) < length buf" by simp
    have lb: "Result + (Length - 1) \<le> length ?buf" using inb by simp
    have "write_digits buf Result Value Length
            = write_digits ?buf Result (Value div 10) (Length - 1)"
      using True by (simp add: write_digits.simps [of buf Result Value])
    also have "\<dots> = take (Result + (Length - 1) - length ?ds) ?buf @ ?ds
                       @ drop (Result + (Length - 1)) ?buf"
      using "1.IH" [OF True L1 lb] .
    also have "take (Result + (Length - 1) - length ?ds) ?buf
                 = take (Result + (Length - 1) - length ?ds) buf"
      by simp
    also have "drop (Result + (Length - 1)) ?buf = ?d # drop (Result + Length) buf"
      using inb Lpos dc by (simp add: drop_update_at)
    finally show ?thesis using ds L by simp
  qed
qed

lemma print_u64_nonzero:
  assumes nz: "Value \<noteq> 0"
      and inb: "Result + length (digits_of (unat Value)) < length buf"
  shows "print_u64 buf Result Value
           = take Result buf @ digits_of (unat Value)
             @ NUL # drop (Result + length (digits_of (unat Value)) + 1) buf"
proof -
  let ?n = "length (digits_of (unat Value))"
  let ?buf = "buf[Result + ?n := NUL]"
  from inb have lb: "Result + ?n \<le> length ?buf" by simp
  have "print_u64 buf Result Value = write_digits ?buf Result Value ?n"
    using nz by (simp add: print_u64_def count_digits_eq Let_def)
  also have "\<dots> = take (Result + ?n - ?n) ?buf @ digits_of (unat Value)
                     @ drop (Result + ?n) ?buf"
    by (rule write_digits_eq [OF order_refl lb])
  also have "take (Result + ?n - ?n) ?buf = take Result buf" by simp
  also have "drop (Result + ?n) ?buf = NUL # drop (Result + ?n + 1) buf"
    using inb by (simp add: drop_update_at)
  finally show ?thesis .
qed

lemma c_str_at:
  "length pre = p \<Longrightarrow> NUL \<notin> set s \<Longrightarrow> c_str (pre @ s @ NUL # rest) p = s"
  by (simp add: c_str_def takeWhile_append)

lemma strcpy_eq:
  "p + length s < length buf \<Longrightarrow>
   strcpy buf p s = take p buf @ s @ NUL # drop (p + length s + 1) buf"
proof (induction s arbitrary: buf p)
  case Nil
  then show ?case by (simp add: upd_conv_take_nth_drop)
next
  case (Cons c cs)
  from Cons.prems have "p + 1 + length cs < length (buf[p := c])" by simp
  then have "strcpy (buf[p := c]) (p + 1) cs
               = take (p + 1) (buf[p := c]) @ cs
                 @ NUL # drop (p + 1 + length cs + 1) (buf[p := c])"
    by (rule Cons.IH)
  moreover from Cons.prems have "take (p + 1) (buf[p := c]) = take p buf @ [c]"
    by (simp add: take_Suc_conv_app_nth)
  ultimately show ?case by simp
qed

lemma print_u64_c_str:
  assumes "Result + length (digits_of (unat Value)) < length buf" "Result + 1 < length buf"
  shows "c_str (print_u64 buf Result Value) Result = decimal_nat (unat Value)"
proof (cases "Value = 0")
  case True
  have n: "NUL \<notin> set ''0''" by (simp add: NUL_def)
  have l: "length (take Result buf) = Result" using assms(2) by simp
  have "strcpy buf Result ''0''
          = take Result buf @ ''0'' @ NUL # drop (Result + length ''0'' + 1) buf"
    by (rule strcpy_eq) (use assms(2) in simp)
  then have "c_str (strcpy buf Result ''0'') Result = ''0''"
    by (simp only: c_str_at [OF l n])
  with True show ?thesis
    by (simp add: print_u64_def decimal_nat.simps [of 0] decimal_digit_def)
next
  case False
  then have pos: "0 < unat Value" by (simp add: unat_gt_0)
  have l: "length (take Result buf) = Result" using assms(2) by simp
  have "c_str (print_u64 buf Result Value) Result = digits_of (unat Value)"
    by (simp only: print_u64_nonzero [OF False assms(1)] c_str_at [OF l digits_of_not_NUL])
  with pos show ?thesis by (simp add: decimal_nat_digits_of)
qed

text \<open>
  Claim C9. Whatever the buffer held before, as long as it has the 21 characters of
  \<open>Temp\<close> after \<open>Result\<close>, \<open>print_i64\<close> leaves at \<open>Result\<close> the C string that is the
  standard decimal representation of the signed value: the digits of the magnitude
  without leading zeros, after a \<open>-\<close> exactly when the value is negative, and \<open>0\<close> for
  zero. The least value, which has no positive counterpart, prints as
  \<open>-9223372036854775808\<close>.
\<close>

theorem print_i64_decimal:
  assumes len: "Result + 21 \<le> length buf"
  shows "c_str (print_i64 buf Result Value) Result = decimal_int (sint Value)
       \<and> c_str (print_i64 buf Result (- 9223372036854775808)) Result
             = ''-9223372036854775808''"
proof -
  have minimum: "c_str (print_i64 buf Result v) Result = ''-9223372036854775808''"
    if "sint v < - 9223372036854775807" for v :: u64
  proof -
    have "strcpy buf Result ''-9223372036854775808''
            = take Result buf @ ''-9223372036854775808''
              @ NUL # drop (Result + length ''-9223372036854775808'' + 1) buf"
      by (rule strcpy_eq) (use len in simp)
    moreover have n: "NUL \<notin> set ''-9223372036854775808''" by (simp add: NUL_def)
    moreover have l: "length (take Result buf) = Result" using len by simp
    ultimately have "c_str (strcpy buf Result ''-9223372036854775808'') Result
                       = ''-9223372036854775808''"
      by (simp only: c_str_at [OF l n])
    with that show ?thesis by (simp add: print_i64_def)
  qed
  have general: "c_str (print_i64 buf Result Value) Result = decimal_int (sint Value)"
  proof -
    consider (lowest) "sint Value < - 9223372036854775807"
      | (negative) "- 9223372036854775807 \<le> sint Value" "sint Value < 0"
      | (nonnegative) "0 \<le> sint Value"
      by linarith
    then show ?thesis
    proof cases
      case lowest
      have "- (2 ^ (LENGTH(64) - 1)) \<le> sint Value" by (rule sint_ge)
      with lowest have "sint Value = - 9223372036854775808" by simp
      moreover have "decimal_int (- 9223372036854775808) = ''-9223372036854775808''"
        by (simp add: decimal_int_def decimal_nat.simps decimal_digit_def)
      ultimately show ?thesis using minimum [OF lowest] by simp
    next
      case negative
      let ?u = "- Value"
      let ?buf = "buf[Result := CHR ''-'']"
      have u: "unat ?u = nat (- sint Value)" using negative(2) by (rule sint_neg_unat)
      with negative(1) have "unat ?u < 10 ^ 19" by simp
      then have "length (digits_of (unat ?u)) \<le> 19" by (rule length_digits_of)
      with len have a: "Result + 1 + length (digits_of (unat ?u)) < length ?buf"
        and b: "Result + 1 + 1 < length ?buf" by simp_all
      from u negative(2) have "0 < unat ?u" by simp
      then have nz: "?u \<noteq> 0" by (rule unat_gt_0 [THEN iffD1])
      let ?ds = "digits_of (unat ?u)"
      have "print_u64 ?buf (Result + 1) ?u
              = take (Result + 1) ?buf @ ?ds
                @ NUL # drop (Result + 1 + length ?ds + 1) ?buf"
        by (rule print_u64_nonzero [OF nz a])
      also have "take (Result + 1) ?buf = take Result buf @ [CHR ''-'']"
        using len by (simp add: take_Suc_conv_app_nth)
      finally have "print_u64 ?buf (Result + 1) ?u
              = take Result buf @ (CHR ''-'' # ?ds)
                @ NUL # drop (Result + 1 + length ?ds + 1) ?buf"
        by simp
      moreover have n: "NUL \<notin> set (CHR ''-'' # ?ds)"
        using digits_of_not_NUL [of "unat ?u"] by (simp add: NUL_def)
      moreover have l: "length (take Result buf) = Result" using len by simp
      ultimately have "c_str (print_u64 ?buf (Result + 1) ?u) Result = CHR ''-'' # ?ds"
        by (simp only: c_str_at [OF l n])
      moreover have "decimal_int (sint Value) = CHR ''-'' # ?ds"
        using negative(2) u \<open>0 < unat ?u\<close>
        by (simp add: decimal_int_def decimal_nat_digits_of)
      ultimately show ?thesis using negative by (simp add: print_i64_def)
    next
      case nonnegative
      have u: "unat Value = nat (sint Value)" using nonnegative by (rule sint_nonneg_unat)
      have "length (digits_of (unat Value)) \<le> 20" by (rule length_digits_of_u64)
      with len have "Result + length (digits_of (unat Value)) < length buf"
        and "Result + 1 < length buf" by simp_all
      then have "c_str (print_u64 buf Result Value) Result = decimal_nat (unat Value)"
        by (rule print_u64_c_str)
      with nonnegative u show ?thesis by (simp add: print_i64_def decimal_int_def)
    qed
  qed
  have "sint (- 9223372036854775808 :: u64) < - 9223372036854775807" by simp
  from general minimum [OF this] show ?thesis by simp
qed

lemma digit_table_value:
  "\<forall>k \<in> set [0..<10]. (of_char (decimal_digit k) :: nat) - of_char CHR ''0'' = k
                          \<and> decimal_digit k \<in> set ''0123456789''
                          \<and> (k \<noteq> 0 \<longrightarrow> decimal_digit k \<noteq> CHR ''0'')
                          \<and> decimal_digit k \<noteq> CHR ''-''"
  by code_simp

lemma decimal_nat_value: "decimal_value (decimal_nat n) = n"
proof (induction n rule: decimal_nat.induct)
  case (1 n)
  show ?case
  proof (cases "n < 10")
    case True
    with digit_table_value show ?thesis
      by (simp add: decimal_nat.simps [of n] decimal_value_def)
  next
    case False
    with "1.IH" have "decimal_value (decimal_nat (n div 10)) = n div 10" by simp
    moreover have "n mod 10 < 10" by simp
    ultimately show ?thesis
      using False digit_table_value
      by (simp add: decimal_nat.simps [of n] decimal_value_def)
  qed
qed

lemma decimal_nat_digits: "set (decimal_nat n) \<subseteq> set ''0123456789''"
proof (induction n rule: decimal_nat.induct)
  case (1 n)
  have d: "decimal_digit k \<in> set ''0123456789''" if "k < 10" for k
    using digit_table_value that by simp
  show ?case
  proof (cases "n < 10")
    case True
    with d [of n] show ?thesis by (simp add: decimal_nat.simps [of n])
  next
    case False
    with "1.IH" d [of "n mod 10"] show ?thesis by (simp add: decimal_nat.simps [of n])
  qed
qed

lemma decimal_nat_not_empty: "decimal_nat n \<noteq> []"
  by (simp add: decimal_nat.simps [of n])

lemma decimal_nat_no_leading_zero: "0 < n \<Longrightarrow> hd (decimal_nat n) \<noteq> CHR ''0''"
proof (induction n rule: decimal_nat.induct)
  case (1 n)
  show ?case
  proof (cases "n < 10")
    case True
    with "1.prems" digit_table_value show ?thesis by (simp add: decimal_nat.simps [of n])
  next
    case False
    then have "0 < n div 10" by simp
    with False "1.IH" have "hd (decimal_nat (n div 10)) \<noteq> CHR ''0''" by simp
    with False decimal_nat_not_empty [of "n div 10"] show ?thesis
      by (simp add: decimal_nat.simps [of n])
  qed
qed

lemma decimal_int_sign: "hd (decimal_int i) = CHR ''-'' \<longleftrightarrow> i < 0"
proof -
  have "hd (decimal_nat n) \<noteq> CHR ''-''" for n
    using decimal_nat_digits [of n] decimal_nat_not_empty [of n]
    by (cases "decimal_nat n") auto
  then show ?thesis by (simp add: decimal_int_def)
qed

lemma decimal_int_zero: "decimal_int 0 = ''0''"
  by (simp add: decimal_int_def decimal_nat.simps decimal_digit_def)

theorem print_i64_decimal_witness:
  "(0::nat) + 21 \<le> length (replicate 21 (CHR ''?''))
   \<and> c_str (print_i64 (replicate 21 (CHR ''?'')) 0 (- 42)) 0 = ''-42''
   \<and> c_str (print_i64 (replicate 21 (CHR ''?'')) 0 (- 9223372036854775808)) 0
         = ''-9223372036854775808''"
  using print_i64_decimal [of 0 "replicate 21 (CHR ''?'')" "- 42"]
  by (simp add: decimal_int_def decimal_nat.simps decimal_digit_def)


section \<open>Button capture resolves as specified\<close>

lemma await_release_held:
  "\<forall>h \<in> set held. h \<noteq> 0 \<Longrightarrow> await_release (held @ 0 # frames) = Some frames"
  by (induction held) auto

lemma await_press_idle:
  "b \<noteq> 0 \<Longrightarrow> await_press (replicate n 0 @ b # frames) = Some (b, frames)"
  by (induction n) auto

lemma GrabButton_accumulate_union:
  "\<forall>b \<in> set pressed. b \<noteq> 0 \<Longrightarrow>
   GrabButton_accumulate ButtonTotal (pressed @ 0 # frames)
     = Some (fold (\<lambda>b t. t OR b) pressed ButtonTotal, frames)"
  by (induction pressed arbitrary: ButtonTotal) auto

lemma fold_count:
  "fold (\<lambda>i n. if P i then n + 1 else n) xs k = k + length (filter P xs)"
  by (induction xs arbitrary: k) auto

lemma BitCount_card: "BitCount T = card {i. i < 16 \<and> bit T i}"
proof -
  have "BitCount T = length (filter (\<lambda>i. T AND push_bit i 1 \<noteq> 0) [0..<16])"
    by (simp add: BitCount_def OPENDINGUX_BUTTON_COUNT_def fold_count)
  also have "\<dots> = card ({i. T AND push_bit i 1 \<noteq> 0} \<inter> set [0..<16])"
    by (simp add: distinct_length_filter)
  also have "{i. T AND push_bit i 1 \<noteq> 0} \<inter> set [0..<16] = {i. i < 16 \<and> bit T i}"
    by (auto simp: and_exp_eq_0_iff_not_bit)
  finally show ?thesis .
qed

lemma valid_buttons_bits:
  "take_bit 16 (T::u32) = T \<Longrightarrow> {i. bit T i} = {i. i < 16 \<and> bit T i}"
proof -
  assume "take_bit 16 T = T"
  then have "bit T i \<longleftrightarrow> i < 16 \<and> bit T i" for i
    by (metis bit_take_bit_iff)
  then show ?thesis by blast
qed

lemma or_subset_iff: "(S OR T) = S \<longleftrightarrow> {i. bit T i} \<subseteq> {i. bit (S::u32) i}"
proof
  assume eq: "(S OR T) = S"
  show "{i. bit T i} \<subseteq> {i. bit S i}"
  proof
    fix i assume "i \<in> {i. bit T i}"
    then have "bit (S OR T) i" by (simp add: bit_or_iff)
    with eq show "i \<in> {i. bit S i}" by simp
  qed
next
  assume "{i. bit T i} \<subseteq> {i. bit S i}"
  then have "bit T i \<Longrightarrow> bit S i" for i by blast
  then show "(S OR T) = S"
    by (intro bit_word_eqI) (auto simp: bit_or_iff)
qed

lemma bits_button: "a < 32 \<Longrightarrow> {i. bit (push_bit a 1 :: u32) i} = {a}"
  by (auto simp: bit_simps)

lemma bits_or: "{i. bit (x OR y :: u32) i} = {i. bit x i} \<union> {i. bit y i}"
  by (auto simp: bit_or_iff)

lemma bits_empty_iff: "{i. bit (x::u32) i} = {} \<longleftrightarrow> x = 0"
proof
  assume "{i. bit x i} = {}"
  then have "\<not> bit x i" for i by blast
  then show "x = 0" by (intro bit_word_eqI) simp
qed simp

lemma GrabButtons_after_release:
  assumes "\<forall>h \<in> set held. h \<noteq> 0" "b \<noteq> 0"
  shows "GrabButtons (held @ 0 # replicate n 0 @ b # frames) = GrabButtons_accumulate b frames"
  using assms by (simp add: GrabButtons_def await_release_held await_press_idle)

lemma GrabButton_after_release:
  assumes "\<forall>h \<in> set held. h \<noteq> 0" "b \<noteq> 0"
  shows "GrabButton (held @ 0 # replicate n 0 @ b # frames) = GrabButton_accumulate b frames"
  using assms by (simp add: GrabButton_def await_release_held await_press_idle)

lemma accumulate_grow:
  "S \<noteq> 0 \<Longrightarrow> (S OR T) = S \<Longrightarrow>
   GrabButtons_accumulate T (S # fs) = GrabButtons_accumulate (T OR S) fs"
  by simp

lemma accumulate_keep:
  "S \<noteq> 0 \<Longrightarrow> (S OR T) \<noteq> S \<Longrightarrow> (S OR T) = T \<Longrightarrow>
   GrabButtons_accumulate T (S # fs) = GrabButtons_accumulate T fs"
  by simp

lemma accumulate_replace:
  "S \<noteq> 0 \<Longrightarrow> (S OR T) \<noteq> S \<Longrightarrow> (S OR T) \<noteq> T \<Longrightarrow>
   GrabButtons_accumulate T (S # fs) = GrabButtons_accumulate S fs"
  by simp

lemma accumulate_end: "GrabButtons_accumulate T (0 # fs) = Some (T, fs)"
  by simp

text \<open>
  Claim C3. In hotkey capture a sampled non-empty frame \<open>S\<close> updates the running total
  \<open>T\<close> so: if \<open>T\<close> is a subset of \<open>S\<close> the total becomes \<open>S\<close>; else if \<open>S\<close> is a subset of
  \<open>T\<close> it stays \<open>T\<close>; else it becomes \<open>S\<close>. An empty frame ends the accumulation and the
  total is returned. Hence, once the buttons that opened the action are released, the
  frames \<open>{A}, {A,B}, {A,B,C}, {B,C}, {}\<close> give \<open>{A,B,C}\<close> and the frames
  \<open>{A}, {B}, {}\<close> give \<open>{B}\<close>, for three different buttons \<open>A\<close>, \<open>B\<close>, \<open>C\<close>.
\<close>

theorem hotkey_capture_merge:
  "(S \<noteq> 0 \<longrightarrow>
      GrabButtons_accumulate T (S # frames)
        = GrabButtons_accumulate
            (if {i. bit T i} \<subseteq> {i. bit S i} then S
             else if {i. bit S i} \<subseteq> {i. bit T i} then T
             else S) frames)
   \<and> GrabButtons_accumulate T (0 # frames) = Some (T, frames)
   \<and> ((\<forall>h \<in> set held. h \<noteq> 0) \<and> a < 16 \<and> b < 16 \<and> c < 16 \<and> a \<noteq> b \<and> a \<noteq> c \<and> b \<noteq> c \<longrightarrow>
        GrabButtons (held @ 0 # replicate n 0
                     @ [push_bit a 1, push_bit a 1 OR push_bit b 1,
                        push_bit a 1 OR push_bit b 1 OR push_bit c 1,
                        push_bit b 1 OR push_bit c 1, 0] @ frames)
          = Some (push_bit a 1 OR push_bit b 1 OR push_bit c 1, frames)
        \<and> GrabButtons (held @ 0 # replicate n 0 @ [push_bit a 1, push_bit b 1, 0] @ frames)
          = Some (push_bit b 1, frames))"
proof (intro conjI impI)
  assume "S \<noteq> 0"
  moreover have "(S OR T) = S \<Longrightarrow> T OR S = S" by (simp add: or.commute)
  ultimately show "GrabButtons_accumulate T (S # frames)
        = GrabButtons_accumulate
            (if {i. bit T i} \<subseteq> {i. bit S i} then S
             else if {i. bit S i} \<subseteq> {i. bit T i} then T
             else S) frames"
    by (simp add: or_subset_iff [symmetric] or.commute [of S T])
next
  show "GrabButtons_accumulate T (0 # frames) = Some (T, frames)" by simp
next
  assume h: "(\<forall>h \<in> set held. h \<noteq> 0) \<and> a < 16 \<and> b < 16 \<and> c < 16 \<and> a \<noteq> b \<and> a \<noteq> c \<and> b \<noteq> c"
  let ?A = "push_bit a 1 :: u32" and ?B = "push_bit b 1 :: u32" and ?C = "push_bit c 1 :: u32"
  let ?AB = "?A OR ?B" and ?BC = "?B OR ?C" and ?ABC = "?A OR ?B OR ?C"
  from h have bits: "{i. bit ?A i} = {a}" "{i. bit ?B i} = {b}" "{i. bit ?C i} = {c}"
    using bits_button [of a] bits_button [of b] bits_button [of c] by simp_all
  have nz: "x \<noteq> 0" if "{i. bit x i} \<noteq> {}" for x :: u32
    using that by auto
  have nzA: "?A \<noteq> 0" and nzB: "?B \<noteq> 0" and nzAB: "?A OR ?B \<noteq> 0"
    and nzABC: "?A OR ?B OR ?C \<noteq> 0" and nzBC: "?B OR ?C \<noteq> 0"
    by (rule nz; simp only: bits bits_or; blast)+
  have s1: "(?AB OR ?A) = ?AB" "?A OR ?AB = ?AB"
    by (simp_all only: or_subset_iff or.commute [of ?A ?AB] bits bits_or) blast+
  have s2: "(?ABC OR ?AB) = ?ABC" "?AB OR ?ABC = ?ABC"
    by (simp_all only: or_subset_iff or.commute [of ?AB ?ABC] bits bits_or) blast+
  have s3: "(?BC OR ?ABC) \<noteq> ?BC"
    using h by (simp only: or_subset_iff bits bits_or) blast
  have s4: "(?BC OR ?ABC) = ?ABC"
    by (simp only: or.commute [of ?BC ?ABC] or_subset_iff bits bits_or) blast
  from h have heldnz: "\<forall>h \<in> set held. h \<noteq> 0" by (rule conjunct1)
  have s5: "(?B OR ?A) \<noteq> ?B" "(?B OR ?A) \<noteq> ?A"
  proof -
    show "(?B OR ?A) \<noteq> ?B"
    proof
      assume "(?B OR ?A) = ?B"
      then have "{i. bit ?A i} \<subseteq> {i. bit ?B i}" by (simp only: or_subset_iff)
      with bits h show False by (simp only: ) blast
    qed
    show "(?B OR ?A) \<noteq> ?A"
    proof
      assume "(?B OR ?A) = ?A"
      then have "(?A OR ?B) = ?A" by (simp only: or.commute [of ?A ?B])
      then have "{i. bit ?B i} \<subseteq> {i. bit ?A i}" by (simp only: or_subset_iff)
      with bits h show False by (simp only: ) blast
    qed
  qed
  have "GrabButtons (held @ 0 # replicate n 0 @ [?A, ?AB, ?ABC, ?BC, 0] @ frames)
          = GrabButtons_accumulate ?A (?AB # ?ABC # ?BC # 0 # frames)"
    by (simp only: append_Cons append_Nil GrabButtons_after_release [OF heldnz nzA])
  also have "\<dots> = GrabButtons_accumulate ?AB (?ABC # ?BC # 0 # frames)"
    using accumulate_grow [OF nzAB s1(1)] by (simp only: s1(2))
  also have "\<dots> = GrabButtons_accumulate ?ABC (?BC # 0 # frames)"
    using accumulate_grow [OF nzABC s2(1)] by (simp only: s2(2))
  also have "\<dots> = GrabButtons_accumulate ?ABC (0 # frames)"
    by (rule accumulate_keep [OF nzBC s3 s4])
  also have "\<dots> = Some (?ABC, frames)"
    by (rule accumulate_end)
  finally show "GrabButtons (held @ 0 # replicate n 0
                     @ [?A, ?A OR ?B, ?A OR ?B OR ?C, ?B OR ?C, 0] @ frames)
          = Some (?A OR ?B OR ?C, frames)" .
  have "GrabButtons (held @ 0 # replicate n 0 @ [?A, ?B, 0] @ frames)
          = GrabButtons_accumulate ?A (?B # 0 # frames)"
    by (simp only: append_Cons append_Nil GrabButtons_after_release [OF heldnz nzA])
  also have "\<dots> = GrabButtons_accumulate ?B (0 # frames)"
    by (rule accumulate_replace [OF nzB s5])
  also have "\<dots> = Some (?B, frames)"
    by (rule accumulate_end)
  finally show "GrabButtons (held @ 0 # replicate n 0 @ [?A, ?B, 0] @ frames)
          = Some (?B, frames)" .
qed

theorem hotkey_capture_merge_witness:
  "(3::u32) \<noteq> 0 \<and> (0x200::u32) \<noteq> 0 \<and> (0::nat) < 16 \<and> (1::nat) < 16 \<and> (2::nat) < 16
   \<and> GrabButtons_accumulate 1 [3, 0] = GrabButtons_accumulate 3 [0]
   \<and> GrabButtons [0x200, 0, 1, 3, 7, 6, 0] = Some (7, [])
   \<and> GrabButtons [0x200, 0, 1, 2, 0] = Some (2, [])"
  using hotkey_capture_merge [where S = 3 and T = 1 and frames = "[0]" and held = "[0x200]"
                               and a = 0 and b = 1 and c = 2 and n = 0]
  by (simp add: GrabButtons_def)

lemma fold_or_valid:
  "take_bit 16 (t::u32) = t \<Longrightarrow> \<forall>b \<in> set bs. take_bit 16 b = b \<Longrightarrow>
   take_bit 16 (fold (\<lambda>b t. t OR b) bs t) = fold (\<lambda>b t. t OR b) bs t"
  by (induction bs arbitrary: t) (simp_all add: take_bit_or)

lemma GrabButton_union:
  assumes held: "\<forall>h \<in> set held. h \<noteq> 0"
      and pressed: "pressed \<noteq> []" "\<forall>b \<in> set pressed. b \<noteq> 0"
  shows "GrabButton (held @ 0 # replicate n 0 @ pressed @ 0 # frames)
           = Some (fold (\<lambda>b t. t OR b) pressed 0, frames)"
proof -
  from pressed(1) obtain b bs where p: "pressed = b # bs" by (cases pressed) auto
  with pressed(2) have b: "b \<noteq> 0" and bs: "\<forall>b \<in> set bs. b \<noteq> 0" by simp_all
  have "GrabButton (held @ 0 # replicate n 0 @ b # (bs @ 0 # frames))
          = GrabButton_accumulate b (bs @ 0 # frames)"
    by (rule GrabButton_after_release [OF held b])
  also have "\<dots> = Some (fold (\<lambda>b t. t OR b) bs b, frames)"
    by (rule GrabButton_accumulate_union [OF bs])
  finally show ?thesis using p by simp
qed

text \<open>
  Claim C5. Once the opening buttons are released and after any idle frames, single
  binding capture returns the union of all the frames sampled until the first empty
  one. \<open>ActionSetMapping\<close> writes that set to the target exactly when it has one bit
  set and leaves the memory alone otherwise; \<open>ActionSetOrClearMapping\<close> writes the
  set when it has one bit and zero otherwise. Frames are sets of the sixteen buttons.
\<close>

theorem single_binding_capture:
  assumes held: "\<forall>h \<in> set held. h \<noteq> 0"
      and pressed: "pressed \<noteq> []" "\<forall>b \<in> set pressed. b \<noteq> 0 \<and> take_bit 16 b = b"
      and target: "Target entry = GlobalTarget a"
  shows "let frames = held @ 0 # replicate n 0 @ pressed @ 0 # rest;
             ButtonTotal = fold (\<lambda>b t. t OR b) pressed 0
         in GrabButton frames = Some (ButtonTotal, rest)
          \<and> ActionSetMapping entry frames mem
              = Some (if card {i. bit ButtonTotal i} = 1 then mem(a := ButtonTotal) else mem, rest)
          \<and> ActionSetOrClearMapping entry frames mem
              = Some (mem(a := (if card {i. bit ButtonTotal i} = 1 then ButtonTotal else 0)), rest)"
proof -
  let ?frames = "held @ 0 # replicate n 0 @ pressed @ 0 # rest"
  let ?T = "fold (\<lambda>b t. t OR b) pressed 0"
  from pressed(2) have nz: "\<forall>b \<in> set pressed. b \<noteq> 0"
    and v: "\<forall>b \<in> set pressed. take_bit 16 b = b" by simp_all
  have g: "GrabButton ?frames = Some (?T, rest)"
    by (rule GrabButton_union [OF held pressed(1) nz])
  have "take_bit 16 ?T = ?T" by (rule fold_or_valid [OF _ v]) simp
  then have "{i. bit ?T i} = {i. i < 16 \<and> bit ?T i}" by (rule valid_buttons_bits)
  then have c: "BitCount ?T = card {i. bit ?T i}" by (simp only: BitCount_card)
  show ?thesis
    by (simp add: Let_def g ActionSetMapping_def ActionSetOrClearMapping_def target c)
qed

theorem single_binding_capture_witness:
  "(0x200::u32) \<noteq> 0 \<and> [1, 1::u32] \<noteq> [] \<and> (1::u32) \<noteq> 0 \<and> take_bit 16 (1::u32) = 1
   \<and> Target ButtonMappingMenu_A = GlobalTarget (Addr_KeypadRemapping 0)
   \<and> GrabButton [0x200, 0, 0, 1, 1, 0] = Some (1, [])
   \<and> ActionSetMapping ButtonMappingMenu_A [0x200, 0, 0, 1, 1, 0] (\<lambda>_. 0x200)
       = Some ((\<lambda>_. 0x200)(Addr_KeypadRemapping 0 := 1), [])"
proof -
  have t: "Target ButtonMappingMenu_A = GlobalTarget (Addr_KeypadRemapping 0)"
    by (simp add: ButtonMappingMenu_A_def zero_entry_def)
  have c: "card {i. bit (1::u32) i} = 1" by (simp add: bit_1_iff)
  have h: "\<forall>h \<in> set [0x200::u32]. h \<noteq> 0" by simp
  have p: "[1, 1::u32] \<noteq> []" "\<forall>b \<in> set [1, 1::u32]. b \<noteq> 0 \<and> take_bit 16 b = b" by simp_all
  from single_binding_capture [OF h p t, of 1 "[]" "\<lambda>_. 0x200"] c t
  show ?thesis by (simp add: Let_def)
qed


section \<open>The tokenizer\<close>

lemma peek_at [simp]: "peek (pre @ c # rest) (length pre) = c"
  by (simp add: peek_def)

lemma peek_at': "k = length pre \<Longrightarrow> peek (pre @ c # rest) k = c"
  by simp

lemma skip_blanks_stop: "\<not> is_blank c \<Longrightarrow> skip_blanks (pre @ c # rest) (length pre) = length pre"
  by (subst skip_blanks.simps) simp

lemma skip_blanks_run:
  "\<forall>b \<in> set bl. is_blank b \<Longrightarrow> \<not> is_blank c \<Longrightarrow>
   skip_blanks (pre @ bl @ c # rest) (length pre) = length pre + length bl"
proof (induction bl arbitrary: pre)
  case Nil
  then show ?case by (simp add: skip_blanks_stop)
next
  case (Cons b bl)
  have "skip_blanks (pre @ (b # bl) @ c # rest) (length pre)
          = skip_blanks ((pre @ [b]) @ bl @ c # rest) (length (pre @ [b]))"
    using Cons.prems by (subst skip_blanks.simps) simp
  also have "\<dots> = length (pre @ [b]) + length bl"
    using Cons.prems by (intro Cons.IH) simp_all
  finally show ?case by simp
qed

lemma find_name_end_scan:
  assumes "\<forall>c \<in> set name. c \<noteq> NUL \<and> \<not> is_blank c \<and> c \<noteq> CHR ''='' \<and> c \<noteq> CHR ''#''"
      and "t = NUL \<or> is_blank t \<or> t = CHR ''=''"
  shows "find_name_end (pre @ name @ t # rest) (length pre) opt
           = Some (length pre + length name,
                   if name = [] then opt else if opt = None then Some (length pre) else opt)"
  using assms(1)
proof (induction name arbitrary: pre opt)
  case Nil
  with assms(2) show ?case by (subst find_name_end.simps) auto
next
  case (Cons c name)
  let ?opt = "if opt = None then Some (length pre) else opt"
  have "find_name_end (pre @ (c # name) @ t # rest) (length pre) opt
          = find_name_end ((pre @ [c]) @ name @ t # rest) (length (pre @ [c])) ?opt"
    using Cons.prems by (subst find_name_end.simps) simp
  also have "\<dots> = Some (length (pre @ [c]) + length name,
                          if name = [] then ?opt
                          else if ?opt = None then Some (length (pre @ [c])) else ?opt)"
    using Cons.prems by (intro Cons.IH) simp_all
  finally show ?case by auto
qed

lemma find_arg_end_scan:
  assumes "\<forall>c \<in> set s. c \<noteq> NUL \<and> c \<noteq> CHR ''#''"
  shows "find_arg_end (pre @ s @ CHR ''#'' # rest) (length pre) arg
           = (pre @ s @ NUL # rest, length pre + length s,
              if s = [] then arg else if arg = None then Some (length pre) else arg)"
  using assms
proof (induction s arbitrary: pre arg)
  case Nil
  show ?case by (subst find_arg_end.simps) (simp add: NUL_def)
next
  case (Cons c s)
  let ?arg = "if arg = None then Some (length pre) else arg"
  have "find_arg_end (pre @ (c # s) @ CHR ''#'' # rest) (length pre) arg
          = find_arg_end ((pre @ [c]) @ s @ CHR ''#'' # rest) (length (pre @ [c])) ?arg"
    using Cons.prems by (subst find_arg_end.simps) simp
  also have "\<dots> = ((pre @ [c]) @ s @ NUL # rest, length (pre @ [c]) + length s,
                      if s = [] then ?arg
                      else if ?arg = None then Some (length (pre @ [c])) else ?arg)"
    using Cons.prems by (intro Cons.IH) simp_all
  finally show ?case by auto
qed

lemma peek_next: "peek (pre @ c # d # rest) (Suc (length pre)) = d"
  by (simp add: peek_def nth_append)

lemma update_next: "(pre @ c # d # rest)[Suc (length pre) := x] = pre @ c # x # rest"
  by (simp add: list_update_append)

lemma trim_back_one:
  assumes "\<not> is_space c"
  shows "trim_back (pre @ c # CHR '' '' # rest) (length pre + 1) = pre @ c # NUL # rest"
proof -
  have "trim_back (pre @ c # CHR '' '' # rest) (length pre + 1)
          = trim_back (pre @ c # NUL # rest) (length pre)"
    by (subst trim_back.simps) (simp add: is_space_def peek_next update_next)
  also have "\<dots> = pre @ c # NUL # rest"
    using assms by (subst trim_back.simps) simp
  finally show ?thesis .
qed

lemma update_beyond: "length pre \<le> k \<Longrightarrow> (pre @ r)[k := x] = pre @ r[k - length pre := x]"
  by (simp add: list_update_append)

lemma find_name_end_returns:
  assumes "find_name_end line cur opt = Some y"
  shows "peek line cur \<noteq> CHR ''#''"
proof (rule find_name_end.raw_induct
         [where P = "\<lambda>line cur opt y. peek line cur \<noteq> CHR ''#''", OF _ assms])
  fix f :: "char list \<Rightarrow> nat \<Rightarrow> nat option \<Rightarrow> (nat \<times> nat option) option"
    and line cur opt y
  assume IH: "\<And>line cur opt y. f line cur opt = Some y \<Longrightarrow> peek line cur \<noteq> CHR ''#''"
    and eq: "(if peek line cur \<noteq> NUL \<and> \<not> (is_blank (peek line cur) \<or> peek line cur = CHR ''='')
              then if peek line cur = CHR ''#'' then f line cur opt
                   else f line (cur + 1) (if opt = None then Some cur else opt)
              else Some (cur, opt)) = Some y"
  show "peek line cur \<noteq> CHR ''#''"
  proof
    assume h: "peek line cur = CHR ''#''"
    with eq have "f line cur opt = Some y"
      by (simp add: NUL_def is_blank_def)
    then have "peek line cur \<noteq> CHR ''#''" by (rule IH)
    with h show False by simp
  qed
qed

lemma find_name_end_hash: "peek line cur = CHR ''#'' \<Longrightarrow> find_name_end line cur opt = None"
  using find_name_end_returns [of line cur opt] by (cases "find_name_end line cur opt") auto

lemma tokenize_comment_line:
  assumes "\<forall>b \<in> set bl. is_blank b" "length bl < 256"
  shows "tokenize (bl @ CHR ''#'' # rest) = None"
proof -
  let ?rest = "(CHR ''#'' # rest)[256 - length bl := NUL]"
  from assms(2) obtain rest' where r: "?rest = CHR ''#'' # rest'"
    by (cases "256 - length bl") auto
  have u: "(bl @ CHR ''#'' # rest)[256 := NUL] = bl @ CHR ''#'' # rest'"
    using assms(2) r by (simp add: update_beyond)
  have nb: "\<not> is_blank (CHR ''#'')" by (simp add: is_blank_def)
  have "skip_blanks ([] @ bl @ CHR ''#'' # rest') (length ([]::char list))
          = length ([]::char list) + length bl"
    by (rule skip_blanks_run [OF assms(1) nb])
  then have s: "skip_blanks (bl @ CHR ''#'' # rest') 0 = length bl" by simp
  have "find_name_end (bl @ CHR ''#'' # rest') (length bl) None = None"
    by (rule find_name_end_hash) simp
  with s u show ?thesis by (simp add: tokenize_def)
qed

lemma read_line_prefix:
  "CHR 0x0A \<notin> set s \<Longrightarrow> length s < n \<Longrightarrow> read_line n (s @ CHR 0x0A # following) = s @ [CHR 0x0A]"
proof (induction s arbitrary: n)
  case Nil
  then show ?case by (cases n) auto
next
  case (Cons c s)
  then show ?case by (cases n) auto
qed

lemma fgets_line:
  assumes "CHR 0x0A \<notin> set s" "length s < 255"
  shows "fgets line (s @ CHR 0x0A # following)
           = Some (s @ CHR 0x0A # NUL # drop (length s + 2) line, following)"
  using read_line_prefix [OF assms, of following] by (simp add: fgets_def)

lemma load_lines_step:
  "fgets (buffer st) input = Some (line', input') \<Longrightarrow>
   load_lines M st input =
     (case load_line M (st\<lparr>buffer := line'\<rparr>) of
        None \<Rightarrow> None
      | Some (Inl crash) \<Rightarrow> Some (Inl crash)
      | Some (Inr st') \<Rightarrow> load_lines M st' input')"
  by (subst load_lines.simps) simp

lemma find_arg_end_to_NUL:
  assumes "\<forall>c \<in> set s. c \<noteq> NUL \<and> c \<noteq> CHR ''#''"
  shows "find_arg_end (pre @ s @ NUL # rest) (length pre) arg
           = (pre @ s @ NUL # rest, length pre + length s,
              if s = [] then arg else if arg = None then Some (length pre) else arg)"
  using assms
proof (induction s arbitrary: pre arg)
  case Nil
  show ?case by (subst find_arg_end.simps) simp
next
  case (Cons c s)
  let ?arg = "if arg = None then Some (length pre) else arg"
  have "find_arg_end (pre @ (c # s) @ NUL # rest) (length pre) arg
          = find_arg_end ((pre @ [c]) @ s @ NUL # rest) (length (pre @ [c])) ?arg"
    using Cons.prems by (subst find_arg_end.simps) simp
  also have "\<dots> = ((pre @ [c]) @ s @ NUL # rest, length (pre @ [c]) + length s,
                      if s = [] then ?arg
                      else if ?arg = None then Some (length (pre @ [c])) else ?arg)"
    using Cons.prems by (intro Cons.IH) simp_all
  finally show ?case by auto
qed

lemma trim_back_step:
  "is_space w \<Longrightarrow> P \<noteq> [] \<Longrightarrow>
   trim_back (P @ w # rest) (length P) = trim_back (P @ NUL # rest) (length P - 1)"
  by (subst trim_back.simps) simp

lemma trim_back_run:
  assumes "\<forall>w \<in> set ws. is_space w" "\<not> is_space c"
  shows "trim_back (pre @ c # ws @ rest) (length pre + length ws)
           = pre @ c # replicate (length ws) NUL @ rest"
  using assms(1)
proof (induction ws arbitrary: rest rule: rev_induct)
  case Nil
  show ?case using assms(2) by (subst trim_back.simps) simp
next
  case (snoc w ws)
  let ?pre = "pre @ c # ws"
  have idx: "length pre + length (ws @ [w]) = length ?pre" by simp
  have "trim_back (pre @ c # (ws @ [w]) @ rest) (length pre + length (ws @ [w]))
          = trim_back (?pre @ w # rest) (length ?pre)"
    by (simp only: idx) simp
  also have "\<dots> = trim_back (?pre @ NUL # rest) (length ?pre - 1)"
    using snoc.prems by (intro trim_back_step) simp_all
  also have "\<dots> = trim_back (pre @ c # ws @ NUL # rest) (length pre + length ws)"
    by simp
  also have "\<dots> = pre @ c # replicate (length ws) NUL @ NUL # rest"
    using snoc.prems by (intro snoc.IH) simp
  also have "\<dots> = pre @ c # replicate (length (ws @ [w])) NUL @ rest"
    by (simp add: replicate_append_same)
  finally show ?case .
qed

lemma tokenize_line:
  assumes name: "name \<noteq> []"
      "\<forall>c \<in> set name. c \<noteq> NUL \<and> \<not> is_blank c \<and> c \<noteq> CHR ''='' \<and> c \<noteq> CHR ''#''"
    and token: "token \<noteq> []" "\<forall>c \<in> set token. c \<noteq> NUL \<and> c \<noteq> CHR ''#''"
      "\<not> is_blank (hd token)" "\<not> is_space (last token)"
    and ws: "\<forall>w \<in> set ws. is_space w"
    and T: "T = NUL \<or> T = CHR ''#''"
    and len: "length name + length token + length ws + 3 < 256"
  shows "\<exists>line'. tokenize (name @ '' = '' @ token @ ws @ T # rest)
                    = Some (line', Some (0, length name + 3))
                  \<and> c_str line' 0 = name \<and> c_str line' (length name + 3) = token"
proof -
  let ?n = "length name"
  define rest' where "rest' = rest[256 - (length name + length token + length ws + 4) := NUL]"
  define tail where "tail = token @ ws @ T # rest'"
  define line where "line = name @ CHR '' '' # CHR ''='' # CHR '' '' # tail"
  define line1 where "line1 = name @ NUL # CHR ''='' # CHR '' '' # tail"
  define line2 where "line2 = name @ NUL # CHR ''='' # CHR '' '' # token @ ws @ NUL # rest'"
  define line3 where
    "line3 = name @ NUL # CHR ''='' # CHR '' '' # token @ replicate (length ws) NUL @ NUL # rest'"
  from name(1) obtain c name' where nm: "name = c # name'" by (cases name) auto
  from token(1) obtain d token' where tk: "token = d # token'" by (cases token) auto
  from token(1) have tkl: "token = butlast token @ [last token]" by simp
  have sp: "w \<noteq> NUL \<and> w \<noteq> CHR ''#''" if "is_space w" for w
    using that by (auto simp: is_space_def NUL_def)

  have upd: "(name @ '' = '' @ token @ ws @ T # rest)[256 := NUL] = line"
  proof -
    have "name @ '' = '' @ token @ ws @ T # rest = (name @ '' = '' @ token @ ws @ [T]) @ rest"
      by simp
    moreover have "length (name @ '' = '' @ token @ ws @ [T]) \<le> 256" using len by simp
    ultimately have "(name @ '' = '' @ token @ ws @ T # rest)[256 := NUL]
        = (name @ '' = '' @ token @ ws @ [T])
          @ rest[256 - length (name @ '' = '' @ token @ ws @ [T]) := NUL]"
      by (simp only: update_beyond)
    moreover have "length (name @ '' = '' @ token @ ws @ [T])
                     = length name + length token + length ws + 4" by simp
    ultimately show ?thesis by (simp add: line_def tail_def rest'_def)
  qed

  have blank_sp: "is_blank (CHR '' '')" and eq_nb: "\<not> is_blank (CHR ''='')"
    by (simp_all add: is_blank_def)

  have s0: "skip_blanks line 0 = 0"
  proof -
    have "\<not> is_blank c" using name(2) nm by simp
    then have "skip_blanks ([] @ c # (name' @ CHR '' '' # CHR ''='' # CHR '' '' # tail)) (length ([]::char list))
                 = length ([]::char list)"
      by (rule skip_blanks_stop)
    then show ?thesis by (simp add: line_def nm)
  qed

  have f1: "find_name_end line 0 None = Some (?n, Some 0)"
  proof -
    have "find_name_end ([] @ name @ CHR '' '' # (CHR ''='' # CHR '' '' # tail)) (length ([]::char list)) None
            = Some (length ([]::char list) + length name,
                    if name = [] then None
                    else if (None::nat option) = None then Some (length ([]::char list)) else None)"
      by (rule find_name_end_scan [OF name(2)]) (simp add: blank_sp)
    then show ?thesis using name(1) by (simp add: line_def)
  qed

  have p0: "peek line ?n = CHR '' ''" by (simp add: line_def)
  have u1: "line[?n := NUL] = line1" by (simp add: line_def line1_def)
  have s1: "skip_blanks line1 (?n + 1) = ?n + 1"
  proof -
    have "skip_blanks ((name @ [NUL]) @ CHR ''='' # (CHR '' '' # tail)) (length (name @ [NUL]))
            = length (name @ [NUL])"
      by (rule skip_blanks_stop [OF eq_nb])
    then show ?thesis by (simp add: line1_def)
  qed
  have p1: "peek line1 (?n + 1) = CHR ''=''"
    using peek_at [of "name @ [NUL]" "CHR ''=''" "CHR '' '' # tail"] by (simp add: line1_def)
  have s2: "skip_blanks line1 (?n + 1 + 1) = ?n + 3"
  proof -
    have "\<not> is_blank d" using token(3) tk by simp
    then have "skip_blanks ((name @ [NUL, CHR ''='']) @ [CHR '' ''] @ d # (token' @ ws @ T # rest'))
                           (length (name @ [NUL, CHR ''='']))
                 = length (name @ [NUL, CHR ''='']) + length [CHR '' '']"
      by (intro skip_blanks_run) (simp_all add: blank_sp)
    then show ?thesis by (simp add: line1_def tail_def tk eval_nat_numeral)
  qed
  have a1: "find_arg_end line1 (?n + 3) None
              = (line2, ?n + 3 + length token + length ws, Some (?n + 3))"
  proof -
    let ?pre = "name @ [NUL, CHR ''='', CHR '' '']"
    have v: "\<forall>c \<in> set (token @ ws). c \<noteq> NUL \<and> c \<noteq> CHR ''#''"
      using token(2) ws sp by auto
    have "find_arg_end (?pre @ (token @ ws) @ T # rest') (length ?pre) None
                 = (?pre @ (token @ ws) @ NUL # rest', length ?pre + length (token @ ws),
                    if token @ ws = [] then None
                    else if (None::nat option) = None then Some (length ?pre) else None)"
    proof (cases "T = NUL")
      case True
      then show ?thesis using find_arg_end_to_NUL [OF v, of ?pre rest' None] by simp
    next
      case False
      with T have "T = CHR ''#''" by simp
      then show ?thesis using find_arg_end_scan [OF v, of ?pre rest' None] by simp
    qed
    then show ?thesis using token(1) by (simp add: line1_def line2_def tail_def eval_nat_numeral)
  qed
  have t1: "trim_back line2 (?n + 3 + length token + length ws - 1) = line3"
  proof -
    let ?pre = "name @ [NUL, CHR ''='', CHR '' ''] @ butlast token"
    have "trim_back (?pre @ last token # ws @ (NUL # rest')) (length ?pre + length ws)
            = ?pre @ last token # replicate (length ws) NUL @ (NUL # rest')"
      by (rule trim_back_run [OF ws token(4)])
    moreover have "?pre @ last token # xs = name @ NUL # CHR ''='' # CHR '' '' # token @ xs" for xs
      using tkl by (metis append.assoc append_Cons append_Nil)
    moreover have "length ?pre + length ws = ?n + 3 + length token + length ws - 1"
      using token(1) by (simp add: Suc_leI)
    ultimately show ?thesis by (simp only: line2_def line3_def)
  qed
  have after: "after_name line ?n 0 = (line3, Some (0, ?n + 3))"
    unfolding after_name_def Let_def
    by (simp only: p0 u1 s1 p1 s2 a1 t1 option.case prod.case if_True if_False simp_thms
                   char.inject refl not_False_eq_True not_True_eq_False)
  have "tokenize (name @ '' = '' @ token @ ws @ T # rest) = Some (line3, Some (0, ?n + 3))"
    unfolding tokenize_def Let_def upd
    by (simp only: s0 f1 after option.case prod.case)
  moreover have "c_str line3 0 = name"
  proof -
    have "NUL \<notin> set name" using name(2) by auto
    then have "c_str ([] @ name @ NUL # (CHR ''='' # CHR '' '' # token @ replicate (length ws) NUL @ NUL # rest')) 0 = name"
      by (intro c_str_at) simp_all
    then show ?thesis by (simp add: line3_def)
  qed
  moreover have "c_str line3 (?n + 3) = token"
  proof -
    have "NUL \<notin> set token" using token(2) by auto
    then have A: "c_str ((name @ [NUL, CHR ''='', CHR '' '']) @ token @ NUL # (replicate (length ws) NUL @ rest')) (?n + 3) = token"
      by (intro c_str_at) simp_all
    have r: "replicate (length ws) NUL @ NUL # rest' = NUL # replicate (length ws) NUL @ rest'"
      by (rule replicate_app_Cons_same)
    show ?thesis unfolding line3_def r using A by simp
  qed
  ultimately show ?thesis by blast
qed


section \<open>Loading settings\<close>

text \<open>
  Claim C7. \<open>FixUpSettings\<close> is all or nothing. If one of the slots 0 to 9 and 12 of
  \<open>KeypadRemapping\<close> is zero, every slot of the table gets its default (the table has as
  many slots as \<open>DefaultKeypadRemapping\<close>) and nothing else changes; if none of them is
  zero, the memory is left as it is. The slots that are not checked have no say.
\<close>

theorem FixUpSettings_all_or_nothing:
  "((\<exists>i \<in> {0..9} \<union> {12}. mem (Addr_KeypadRemapping i) = 0) \<longrightarrow>
      (\<forall>i < length (DefaultKeypadRemapping p).
          FixUpSettings p mem (Addr_KeypadRemapping i) = DefaultKeypadRemapping p ! i)
      \<and> (\<forall>a. (\<forall>i < length (DefaultKeypadRemapping p). a \<noteq> Addr_KeypadRemapping i)
              \<longrightarrow> FixUpSettings p mem a = mem a))
   \<and> (\<not> (\<exists>i \<in> {0..9} \<union> {12}. mem (Addr_KeypadRemapping i) = 0) \<longrightarrow> FixUpSettings p mem = mem)"
proof -
  have checked: "(\<exists>i \<in> {0..9} \<union> {12}. mem (Addr_KeypadRemapping i) = 0)
        \<longleftrightarrow> mem (Addr_KeypadRemapping 0) = 0 \<or> mem (Addr_KeypadRemapping 1) = 0
         \<or> mem (Addr_KeypadRemapping 2) = 0 \<or> mem (Addr_KeypadRemapping 3) = 0
         \<or> mem (Addr_KeypadRemapping 4) = 0 \<or> mem (Addr_KeypadRemapping 5) = 0
         \<or> mem (Addr_KeypadRemapping 6) = 0 \<or> mem (Addr_KeypadRemapping 7) = 0
         \<or> mem (Addr_KeypadRemapping 8) = 0 \<or> mem (Addr_KeypadRemapping 9) = 0
         \<or> mem (Addr_KeypadRemapping 12) = 0"
  proof -
    have "{0..9::nat} = {0, 1, 2, 3, 4, 5, 6, 7, 8, 9}" by auto
    then have "(\<exists>i \<in> {0..9} \<union> {12}. P i)
        \<longleftrightarrow> P 0 \<or> P 1 \<or> P 2 \<or> P 3 \<or> P 4 \<or> P 5 \<or> P 6 \<or> P 7 \<or> P 8 \<or> P 9 \<or> P 12"
      for P :: "nat \<Rightarrow> bool"
      by (simp only: bex_Un) blast
    then show ?thesis .
  qed
  show ?thesis
    unfolding checked
    by (auto simp: FixUpSettings_def memcpy_KeypadRemapping_def split: address.splits)
qed

theorem FixUpSettings_all_or_nothing_witness:
  "((\<lambda>_. 1)(Addr_KeypadRemapping 3 := 0)) (Addr_KeypadRemapping 3) = (0::u32)
   \<and> FixUpSettings example_port ((\<lambda>_. 1)(Addr_KeypadRemapping 3 := 0)) (Addr_KeypadRemapping 0) = 0x200
   \<and> FixUpSettings example_port ((\<lambda>_. 1)(Addr_KeypadRemapping 3 := 0)) (Addr_KeypadRemapping 3) = 0x40
   \<and> FixUpSettings example_port ((\<lambda>_. 1)(Addr_KeypadRemapping 3 := 0)) (Addr_KeypadRemapping 10) = 0
   \<and> FixUpSettings example_port ((\<lambda>_. 1)(Addr_KeypadRemapping 3 := 0)) Addr_ScaleMode = 1
   \<and> FixUpSettings example_port ((\<lambda>_. 1)(Addr_KeypadRemapping 10 := 0))
         = (\<lambda>_. 1)(Addr_KeypadRemapping 10 := 0)"
proof -
  have a: "\<exists>i \<in> {0..9} \<union> {12}. ((\<lambda>_. 1)(Addr_KeypadRemapping 3 := 0)) (Addr_KeypadRemapping i) = (0::u32)"
    by (rule bexI [of _ 3]) simp_all
  have b: "\<not> (\<exists>i \<in> {0..9} \<union> {12}. ((\<lambda>_. 1)(Addr_KeypadRemapping 10 := 0)) (Addr_KeypadRemapping i) = (0::u32))"
    by auto
  from FixUpSettings_all_or_nothing [of "(\<lambda>_. 1)(Addr_KeypadRemapping 3 := 0)" example_port] a
  have d: "\<forall>i < length (DefaultKeypadRemapping example_port).
          FixUpSettings example_port ((\<lambda>_. 1)(Addr_KeypadRemapping 3 := 0)) (Addr_KeypadRemapping i)
            = DefaultKeypadRemapping example_port ! i"
    and o: "\<forall>a. (\<forall>i < length (DefaultKeypadRemapping example_port). a \<noteq> Addr_KeypadRemapping i)
              \<longrightarrow> FixUpSettings example_port ((\<lambda>_. 1)(Addr_KeypadRemapping 3 := 0)) a
                  = ((\<lambda>_. 1)(Addr_KeypadRemapping 3 := 0)) a"
    by blast+
  from FixUpSettings_all_or_nothing [of "(\<lambda>_. 1)(Addr_KeypadRemapping 10 := 0)" example_port] b
  have n: "FixUpSettings example_port ((\<lambda>_. 1)(Addr_KeypadRemapping 10 := 0))
         = (\<lambda>_. 1)(Addr_KeypadRemapping 10 := 0)"
    by blast
  from d [rule_format, of 0] d [rule_format, of 3] d [rule_format, of 10] o [rule_format, of Addr_ScaleMode] n
  show ?thesis by simp
qed

lemma bind_weak_cong: "x = y \<Longrightarrow> Option.bind x f = Option.bind y f"
  by simp

lemma lookup_foo_source_table:
  "Menu_FindByPersistentName (menu p) MainMenu ''foo'' = Some (Inl OutOfBounds)"
  by (simp add: Menu_FindByPersistentName_def Menu_FindByPersistentName_from.simps
        MainMenu_Display_def DisplayMenu_BootSource_def DisplayMenu_FPSCounter_def
        DisplayMenu_ScaleMode_def DisplayMenu_Frameskip_def DisplayMenu_FastForwardTarget_def
        zero_entry_def strcasecmp_is_0_def tolower_def
        cong: bind_weak_cong)

text \<open>
  Claim C2 says that the tokenizer returns for every line and passes over a comment.
  It does not: on a line whose first character that is not blank is \<open>#\<close>, the search for
  the end of the option name stays at the \<open>#\<close> for ever, and so does the load.
\<close>

theorem full_line_comment_never_returns:
  "tokenize (CHR ''#'' # rest) = None
   \<and> tokenize (CHR '' '' # CHR 0x09 # CHR ''#'' # rest) = None
   \<and> load_lines M st (''# comment'' @ CHR 0x0A # following) = None"
proof -
  have a: "tokenize (CHR ''#'' # rest) = None" for rest
    using tokenize_comment_line [of "[]" rest] by simp
  have b: "tokenize (CHR '' '' # CHR 0x09 # CHR ''#'' # rest) = None"
    using tokenize_comment_line [of "[CHR '' '', CHR 0x09]" rest] by (simp add: is_blank_def)
  have "fgets (buffer st) (''# comment'' @ CHR 0x0A # following)
          = Some (''# comment'' @ CHR 0x0A # NUL # drop (length ''# comment'' + 2) (buffer st), following)"
    by (rule fgets_line) simp_all
  then have "load_lines M st (''# comment'' @ CHR 0x0A # following) = None"
    by (simp add: load_lines_step load_line_def a)
  with a b show ?thesis by simp
qed


lemma load_line_lookup:
  assumes "tokenize (buffer st) = Some (line', Some (opt, arg))"
  shows "load_line M st =
           (let st1 = st\<lparr>buffer := line'\<rparr>
            in Option.bind (Menu_FindByPersistentName M MainMenu (c_str line' opt))
                 (\<lambda>found. case found of
                    Inl e \<Rightarrow> Some (Inl (e, st1))
                  | Inr None \<Rightarrow>
                      Some (Inl (NullDereference,
                                 st1\<lparr>traced := traced st1
                                        @ [''W: Option '' @ [CHR 0x27] @ c_str line' opt
                                           @ [CHR 0x27] @ '' not found; ignored'']\<rparr>))
                  | Inr (Some entry) \<Rightarrow>
                      (case call_LoadFunction entry (c_str line' arg) (settings st1) of
                         Inl e \<Rightarrow> Some (Inl (e, st1))
                       | Inr (mem', warnings) \<Rightarrow>
                           Some (Inr (st1\<lparr>settings := mem', traced := traced st1 @ warnings\<rparr>)))))"
  using assms by (simp add: load_line_def)

lemma fgets_tokenize_plain:
  assumes name: "name \<noteq> []"
      "\<forall>c \<in> set name. c \<noteq> NUL \<and> \<not> is_space c \<and> c \<noteq> CHR ''='' \<and> c \<noteq> CHR ''#''"
    and token: "token \<noteq> []" "\<forall>c \<in> set token. c \<noteq> NUL \<and> c \<noteq> CHR ''#'' \<and> c \<noteq> CHR 0x0A"
      "\<not> is_blank (hd token)" "\<not> is_space (last token)"
    and len: "length name + length token + 4 < 256"
  shows "\<exists>line0 line'.
           fgets buf (name @ '' = '' @ token @ CHR 0x0A # following) = Some (line0, following)
           \<and> tokenize line0 = Some (line', Some (0, length name + 3))
           \<and> c_str line' 0 = name \<and> c_str line' (length name + 3) = token"
proof -
  let ?s = "name @ '' = '' @ token"
  let ?rest = "drop (length ?s + 2) buf"
  have nl: "CHR 0x0A \<notin> set ?s"
    using name(2) token(2) by (auto simp: is_space_def)
  have "length ?s < 255" using len by simp
  with nl have "fgets buf (?s @ CHR 0x0A # following)
                  = Some (?s @ CHR 0x0A # NUL # ?rest, following)"
    by (rule fgets_line)
  then have f: "fgets buf (name @ '' = '' @ token @ CHR 0x0A # following)
                  = Some (name @ '' = '' @ token @ [CHR 0x0A] @ NUL # ?rest, following)"
    by simp
  have nb: "\<forall>c \<in> set name. c \<noteq> NUL \<and> \<not> is_blank c \<and> c \<noteq> CHR ''='' \<and> c \<noteq> CHR ''#''"
    using name(2) by (auto simp: is_space_def is_blank_def)
  have tv: "\<forall>c \<in> set token. c \<noteq> NUL \<and> c \<noteq> CHR ''#''" using token(2) by simp
  have ws: "\<forall>w \<in> set [CHR 0x0A]. is_space w" by (simp add: is_space_def)
  have l: "length name + length token + length [CHR 0x0A] + 3 < 256" using len by simp
  from tokenize_line [OF name(1) nb token(1) tv token(3) token(4) ws _ l, of NUL ?rest]
  obtain line' where "tokenize (name @ '' = '' @ token @ [CHR 0x0A] @ NUL # ?rest)
                        = Some (line', Some (0, length name + 3))"
      "c_str line' 0 = name" "c_str line' (length name + 3) = token"
    by auto
  with f show ?thesis by blast
qed

text \<open>
  Claim C1 says that a line with an unknown key leaves one warning and the load goes on
  with the next line. It does not go on: when the lookup returns the null pointer, the
  warning is traced and then \<open>entry->LoadFunction\<close> dereferences it, so the line after
  \<open>foo = bar\<close> is never read. With the table of gui.c itself the lookup does not even
  return null: it first walks past the end of the array of \<open>DisplayMenu\<close>.
\<close>

theorem unknown_key_stops_the_load:
  "(Menu_FindByPersistentName M MainMenu ''foo'' = Some (Inr None) \<longrightarrow>
      (\<exists>st'. load_lines M st (''foo = bar'' @ CHR 0x0A # following)
                = Some (Inl (NullDereference, st'))
             \<and> settings st' = settings st
             \<and> traced st' = traced st
                   @ [''W: Option '' @ [CHR 0x27] @ ''foo'' @ [CHR 0x27] @ '' not found; ignored'']))
   \<and> (\<exists>st'. load_lines (menu p) st (''foo = bar'' @ CHR 0x0A # following)
                = Some (Inl (OutOfBounds, st'))
             \<and> settings st' = settings st \<and> traced st' = traced st)"
proof -
  have "\<exists>line0 line'.
           fgets (buffer st) (''foo'' @ '' = '' @ ''bar'' @ CHR 0x0A # following)
             = Some (line0, following)
           \<and> tokenize line0 = Some (line', Some (0, length ''foo'' + 3))
           \<and> c_str line' 0 = ''foo'' \<and> c_str line' (length ''foo'' + 3) = ''bar''"
    by (rule fgets_tokenize_plain) (simp_all add: NUL_def is_space_def is_blank_def)
  then obtain line0 line' where
      f: "fgets (buffer st) (''foo = bar'' @ CHR 0x0A # following) = Some (line0, following)"
    and t: "tokenize line0 = Some (line', Some (0, 6))"
    and c: "c_str line' 0 = ''foo''"
    by auto
  have ll: "load_lines M' st (''foo = bar'' @ CHR 0x0A # following)
           = (case load_line M' (st\<lparr>buffer := line0\<rparr>) of
                None \<Rightarrow> None
              | Some (Inl crash) \<Rightarrow> Some (Inl crash)
              | Some (Inr st') \<Rightarrow> load_lines M' st' following)" for M'
    by (rule load_lines_step [OF f])
  have tk: "tokenize (buffer (st\<lparr>buffer := line0\<rparr>)) = Some (line', Some (0, 6))"
    using t by simp
  show ?thesis
  proof (intro conjI impI)
    assume "Menu_FindByPersistentName M MainMenu ''foo'' = Some (Inr None)"
    then show "\<exists>st'. load_lines M st (''foo = bar'' @ CHR 0x0A # following)
                = Some (Inl (NullDereference, st'))
             \<and> settings st' = settings st
             \<and> traced st' = traced st
                   @ [''W: Option '' @ [CHR 0x27] @ ''foo'' @ [CHR 0x27] @ '' not found; ignored'']"
      unfolding ll by (simp add: load_line_lookup [OF tk] c)
  next
    show "\<exists>st'. load_lines (menu p) st (''foo = bar'' @ CHR 0x0A # following)
                = Some (Inl (OutOfBounds, st'))
             \<and> settings st' = settings st \<and> traced st' = traced st"
      unfolding ll by (simp add: load_line_lookup [OF tk] c lookup_foo_source_table)
  qed
qed

theorem unknown_key_stops_the_load_witness:
  "Menu_FindByPersistentName (terminated_menu example_port) MainMenu ''foo'' = Some (Inr None)
   \<and> (\<exists>st'. load_lines (terminated_menu example_port)
                \<lparr>settings = \<lambda>_. 1, buffer = replicate 257 (CHR ''?''), traced = []\<rparr>
                (''foo = bar'' @ CHR 0x0A # ''fps_counter = show'')
              = Some (Inl (NullDereference, st')))"
proof -
  have l: "Menu_FindByPersistentName (terminated_menu example_port) MainMenu ''foo''
             = Some (Inr None)"
    by code_simp
  with unknown_key_stops_the_load
         [of "terminated_menu example_port"
             "\<lparr>settings = \<lambda>_. 1, buffer = replicate 257 (CHR ''?''), traced = []\<rparr>"
             "''fps_counter = show''" example_port]
  show ?thesis by blast
qed

end
